theory Spec2Isabelle
  imports Main "HOL-Library.Sublist"
begin

section \<open>Python values used by preprocess_atis_traditional.py\<close>

text \<open>
  The script is a linear pipeline over text files. Its inputs are modelled after the
  directory walk and the csv reader: a directory is the list of its files in walk order,
  a file is its name and the list of its parsed rows, a row is the list of its columns.
  A Python \<open>str\<close> is a \<open>string\<close>; a character stands for a code point below 256.
  Every exception the script can raise in its own code is a value of \<open>py_error\<close>, and a
  function that can raise returns \<open>py_error + 'a\<close>. Failures of the operating system
  (a file that cannot be opened or written) are outside the model.
\<close>

datatype py_error = ValueError | IndexError | KeyError | StopIteration

type_synonym row = "string list"
type_synonym data_file = "string \<times> row list"

subsection \<open>Strings\<close>

text \<open>The code points below 256 that \<open>str.split()\<close> treats as whitespace.\<close>

definition is_space :: "char \<Rightarrow> bool" where
  "is_space c = ((of_char c :: nat) \<in> {9, 10, 11, 12, 13, 28, 29, 30, 31, 32, 133, 160})"

text \<open>\<open>s.split()\<close>: the maximal runs of non-whitespace characters, in order.\<close>

fun split_ws_aux :: "string \<Rightarrow> string \<Rightarrow> string list" where
  "split_ws_aux cur [] = (if cur = [] then [] else [cur])"
| "split_ws_aux cur (c # cs) =
     (if is_space c then (if cur = [] then split_ws_aux [] cs else cur # split_ws_aux [] cs)
      else split_ws_aux (cur @ [c]) cs)"

definition split_ws :: "string \<Rightarrow> string list" where
  "split_ws s = split_ws_aux [] s"

text \<open>\<open>s.split(sep)\<close> for a one-character separator: never empty, one part more than
  there are separators.\<close>

fun split_on_aux :: "char \<Rightarrow> string \<Rightarrow> string \<Rightarrow> string list" where
  "split_on_aux sep cur [] = [cur]"
| "split_on_aux sep cur (c # cs) =
     (if c = sep then cur # split_on_aux sep [] cs else split_on_aux sep (cur @ [c]) cs)"

definition split_on :: "char \<Rightarrow> string \<Rightarrow> string list" where
  "split_on sep s = split_on_aux sep [] s"

text \<open>\<open>s.split(sep, 1)\<close>: split at the first separator only.\<close>

definition split_on1 :: "char \<Rightarrow> string \<Rightarrow> string list" where
  "split_on1 sep s =
     (if sep \<in> set s then [takeWhile (\<lambda>c. c \<noteq> sep) s, tl (dropWhile (\<lambda>c. c \<noteq> sep) s)]
      else [s])"

text \<open>\<open>xs[0]\<close> and \<open>row[i]\<close>: an index out of range raises IndexError.\<close>

definition index0 :: "'a list \<Rightarrow> py_error + 'a" where
  "index0 xs = (case xs of [] \<Rightarrow> Inl IndexError | x # _ \<Rightarrow> Inr x)"

definition col :: "row \<Rightarrow> nat \<Rightarrow> py_error + string" where
  "col r i = (if i < length r then Inr (r ! i) else Inl IndexError)"

text \<open>\<open>s.lower()\<close> on code points below 256: the ASCII capitals and the Latin-1 capitals
  (all of 192..222 but the multiplication sign 215) move up by 32.\<close>

definition lower_char :: "char \<Rightarrow> char" where
  "lower_char c =
     (let n = (of_char c :: nat)
      in if (65 \<le> n \<and> n \<le> 90) \<or> (192 \<le> n \<and> n \<le> 222 \<and> n \<noteq> 215)
         then char_of (n + 32) else c)"

definition lower :: "string \<Rightarrow> string" where
  "lower s = map lower_char s"

text \<open>\<open>s.replace(old, new)\<close>: scanning from the left, every occurrence of \<open>old\<close> found is
  replaced and the scan goes on behind it. For an empty \<open>old\<close> Python puts \<open>new\<close> before
  every character and at the end.\<close>

function py_replace :: "string \<Rightarrow> string \<Rightarrow> string \<Rightarrow> string" where
  "py_replace old new s =
     (if old = [] then concat (map (\<lambda>c. new @ [c]) s) @ new
      else if s = [] then []
      else if prefix old s then new @ py_replace old new (drop (length old) s)
      else hd s # py_replace old new (tl s))"
  by pat_completeness auto
termination
  by (relation "measure (\<lambda>(old, new, s). length s)") auto

declare py_replace.simps [simp del]

text \<open>\<open>old in s\<close> for strings: \<open>old\<close> occurs somewhere in \<open>s\<close>.\<close>

fun contains :: "string \<Rightarrow> string \<Rightarrow> bool" where
  "contains old [] = (old = [])"
| "contains old (c # cs) = (prefix old (c # cs) \<or> contains old cs)"

text \<open>\<open>int(s)\<close> in base 10. The whitespace dropped at both ends is narrower than that of
  \<open>str.split()\<close>: the separators 28 to 31 are not dropped. Then comes an optional sign,
  then decimal digits, where single underscores may stand between two digits. A string
  with more digits than the interpreter's default limit of 4300 is refused as well.
  Everything not accepted raises ValueError.\<close>

definition is_int_space :: "char \<Rightarrow> bool" where
  "is_int_space c = ((of_char c :: nat) \<in> {9, 10, 11, 12, 13, 32, 133, 160})"

definition is_digit :: "char \<Rightarrow> bool" where
  "is_digit c = (48 \<le> (of_char c :: nat) \<and> (of_char c :: nat) \<le> 57)"

definition digit_val :: "char \<Rightarrow> nat" where
  "digit_val c = of_char c - 48"

definition strip :: "string \<Rightarrow> string" where
  "strip s = rev (dropWhile is_int_space (rev (dropWhile is_int_space s)))"

definition max_str_digits :: nat where
  "max_str_digits = 4300"

fun parse_digits :: "nat \<Rightarrow> string \<Rightarrow> nat option" where
  "parse_digits acc [] = Some acc"
| "parse_digits acc (c # cs) =
     (if is_digit c then parse_digits (10 * acc + digit_val c) cs
      else if c = CHR ''_'' then
        (case cs of
           [] \<Rightarrow> None
         | d # ds \<Rightarrow> if is_digit d then parse_digits (10 * acc + digit_val d) ds else None)
      else None)"

definition py_int :: "string \<Rightarrow> py_error + int" where
  "py_int s =
     (let t = strip s;
          neg = (case t of [] \<Rightarrow> False | c # _ \<Rightarrow> c = CHR ''-'');
          u = (case t of [] \<Rightarrow> [] | c # r \<Rightarrow> if c = CHR ''-'' \<or> c = CHR ''+'' then r else t)
      in case u of
           [] \<Rightarrow> Inl ValueError
         | c # r \<Rightarrow>
             if is_digit c then
               (case parse_digits (digit_val c) r of
                  None \<Rightarrow> Inl ValueError
                | Some n \<Rightarrow>
                    if max_str_digits < length (filter is_digit u) then Inl ValueError
                    else Inr (if neg then - int n else int n))
             else Inl ValueError)"

subsection \<open>Dictionaries\<close>

text \<open>A \<open>dict\<close> keeps its keys in insertion order, and the loops of the script iterate in
  that order: a dictionary is an association list with distinct keys. Assigning to a key
  that is present replaces the value in place; a new key goes to the end.\<close>

fun dict_set :: "'k \<Rightarrow> 'v \<Rightarrow> ('k \<times> 'v) list \<Rightarrow> ('k \<times> 'v) list" where
  "dict_set k v [] = [(k, v)]"
| "dict_set k v (p # ps) = (if fst p = k then (k, v) # ps else p # dict_set k v ps)"

definition dict_get :: "'k \<Rightarrow> ('k \<times> 'v) list \<Rightarrow> py_error + 'v" where
  "dict_get k d = (case map_of d k of None \<Rightarrow> Inl KeyError | Some v \<Rightarrow> Inr v)"

definition setdefault :: "'k \<Rightarrow> 'v \<Rightarrow> ('k \<times> 'v) list \<Rightarrow> ('k \<times> 'v) list" where
  "setdefault k v d = (case map_of d k of None \<Rightarrow> d @ [(k, v)] | Some _ \<Rightarrow> d)"

section \<open>The MultiATIS++ loader: data_import_mapp\<close>

text \<open>The value stored under an id is the list [utterance, slots, intent]; it always has
  three entries, so it is a triple here.\<close>

type_synonym sample = "string \<times> string \<times> string"
type_synonym id_table = "(int \<times> sample) list"
type_synonym split_table = "(string \<times> id_table) list"
type_synonym corpus = "(string \<times> split_table) list"

text \<open>Lines 73 and 214: \<open>intent.replace('atis_','')\<close>.\<close>

definition clean_intent :: "string \<Rightarrow> string" where
  "clean_intent intent = py_replace ''atis_'' [] intent"

text \<open>Lines 61-63 (and 166-168): \<open>split, lang_ext = filename.split('_')\<close> and
  \<open>lang, _ext = lang_ext.split('.')\<close> unpack exactly two parts each, or raise ValueError;
  the language is lowercased.\<close>

definition parse_mapp_name :: "string \<Rightarrow> py_error + (string \<times> string)" where
  "parse_mapp_name filename =
     (case split_on CHR ''_'' filename of
        [split, lang_ext] \<Rightarrow>
          (case split_on CHR ''.'' lang_ext of
             [lang, ext] \<Rightarrow> Inr (split, lower lang)
           | _ \<Rightarrow> Inl ValueError)
      | _ \<Rightarrow> Inl ValueError)"

text \<open>Lines 71-75, the body of the row loop. All rows of one file write into the same
  inner dictionary \<open>all_data[lang][split]\<close>, which is the state of the loop.\<close>

definition mapp_row :: "row \<Rightarrow> id_table \<Rightarrow> py_error + id_table" where
  "mapp_row r by_id =
     (case col r 0 of Inl e \<Rightarrow> Inl e | Inr eye_d \<Rightarrow>
      case col r 1 of Inl e \<Rightarrow> Inl e | Inr utterance \<Rightarrow>
      case col r 2 of Inl e \<Rightarrow> Inl e | Inr slots \<Rightarrow>
      case col r 3 of Inl e \<Rightarrow> Inl e | Inr intent \<Rightarrow>
      case py_int eye_d of Inl e \<Rightarrow> Inl e | Inr i \<Rightarrow>
        Inr (dict_set i (utterance, slots, clean_intent intent) by_id))"

fun mapp_rows :: "row list \<Rightarrow> id_table \<Rightarrow> py_error + id_table" where
  "mapp_rows [] by_id = Inr by_id"
| "mapp_rows (r # rs) by_id =
     (case mapp_row r by_id of Inl e \<Rightarrow> Inl e | Inr by_id' \<Rightarrow> mapp_rows rs by_id')"

text \<open>Lines 58-75, one file: an empty name is skipped; \<open>next(reader)\<close> drops the header
  row and raises StopIteration when the file has no row at all.\<close>

definition mapp_file :: "data_file \<Rightarrow> corpus \<Rightarrow> py_error + corpus" where
  "mapp_file f all_data =
     (if fst f = [] then Inr all_data else
      case parse_mapp_name (fst f) of Inl e \<Rightarrow> Inl e | Inr (split, lang) \<Rightarrow>
      let all_data1 = setdefault lang [] all_data in
      case dict_get lang all_data1 of Inl e \<Rightarrow> Inl e | Inr by_split \<Rightarrow>
      let by_split1 = setdefault split [] by_split in
      case snd f of [] \<Rightarrow> Inl StopIteration | header # rows \<Rightarrow>
      case dict_get split by_split1 of Inl e \<Rightarrow> Inl e | Inr by_id \<Rightarrow>
      case mapp_rows rows by_id of Inl e \<Rightarrow> Inl e | Inr by_id' \<Rightarrow>
        Inr (dict_set lang (dict_set split by_id' by_split1) all_data1))"

fun mapp_files :: "data_file list \<Rightarrow> corpus \<Rightarrow> py_error + corpus" where
  "mapp_files [] all_data = Inr all_data"
| "mapp_files (f # fs) all_data =
     (case mapp_file f all_data of Inl e \<Rightarrow> Inl e | Inr all_data' \<Rightarrow> mapp_files fs all_data')"

text \<open>The whole loader. Lines 78-79 and 85-86 log \<open>all_data['de']['test'][1007]\<close> and
  \<open>len(all_data['de']['train'])\<close>: a corpus without them raises KeyError. The result is
  the table and the list of its languages.\<close>

definition data_import_mapp :: "data_file list \<Rightarrow> py_error + (corpus \<times> string list)" where
  "data_import_mapp files =
     (case mapp_files files [] of Inl e \<Rightarrow> Inl e | Inr all_data \<Rightarrow>
      case dict_get ''de'' all_data of Inl e \<Rightarrow> Inl e | Inr de \<Rightarrow>
      case dict_get ''test'' de of Inl e \<Rightarrow> Inl e | Inr de_test \<Rightarrow>
      case dict_get 1007 de_test of Inl e \<Rightarrow> Inl e | Inr example \<Rightarrow>
      case dict_get ''train'' de of Inl e \<Rightarrow> Inl e | Inr de_train \<Rightarrow>
        Inr (all_data, map fst all_data))"

section \<open>The MultiATIS++ reformatter: reformat_data_mapp\<close>

text \<open>\<open>final_data\<close> is a dictionary (input, output) of dictionaries (train, dev, test) of
  lists of lines. Lines 107-113 build it with empty lists.\<close>

type_synonym final_data = "(string \<times> (string \<times> string list) list) list"

definition final_data_init :: final_data where
  "final_data_init =
     [(''input'', [(''train'', []), (''dev'', []), (''test'', [])]),
      (''output'', [(''train'', []), (''dev'', []), (''test'', [])])]"

text \<open>\<open>final_data[inout][split].append(line)\<close>: a missing key raises KeyError.\<close>

definition fd_append :: "string \<Rightarrow> string \<Rightarrow> string \<Rightarrow> final_data \<Rightarrow> py_error + final_data" where
  "fd_append inout split line fd =
     (case dict_get inout fd of Inl e \<Rightarrow> Inl e | Inr inner \<Rightarrow>
      case dict_get split inner of Inl e \<Rightarrow> Inl e | Inr data \<Rightarrow>
        Inr (dict_set inout (dict_set split (data @ [line]) inner) fd))"

text \<open>The two appends that always stand together (lines 125-126, 225-226, 231-232,
  239-240): first the input list, then the output list of the same split.\<close>

definition add_pair :: "string \<Rightarrow> string \<Rightarrow> string \<Rightarrow> final_data \<Rightarrow> py_error + final_data" where
  "add_pair split inp out fd =
     (case fd_append ''input'' split inp fd of Inl e \<Rightarrow> Inl e | Inr fd' \<Rightarrow>
        fd_append ''output'' split out fd')"

text \<open>Lines 121-123: the loop over \<open>zip(utt.split(), slots.split())\<close>.\<close>

fun slot_loop :: "(string \<times> string) list \<Rightarrow> string \<Rightarrow> string" where
  "slot_loop [] outstr = outstr"
| "slot_loop ((token, slot) # ps) outstr =
     slot_loop ps
       (if slot \<noteq> ''O'' then outstr @ token @ '' '' @ ''<'' @ slot @ ''>'' @ '' '' else outstr)"

text \<open>Lines 119-124: the input line and the output line of one sample.\<close>

definition format_mapp :: "string \<Rightarrow> sample \<Rightarrow> string \<times> string" where
  "format_mapp lang sample_data =
     (case sample_data of (utterance, slots, intent) \<Rightarrow>
        let utt = lower utterance;
            outstr = slot_loop (zip (split_ws utt) (split_ws slots)) []
        in (utt, outstr @ ''<intent-'' @ intent @ ''> <lang-'' @ lang @ ''>''))"

fun reformat_samples :: "string \<Rightarrow> string \<Rightarrow> id_table \<Rightarrow> final_data \<Rightarrow> py_error + final_data" where
  "reformat_samples lang split [] fd = Inr fd"
| "reformat_samples lang split ((eye_d, sample_data) # rest) fd =
     (case add_pair split (fst (format_mapp lang sample_data))
             (snd (format_mapp lang sample_data)) fd of
        Inl e \<Rightarrow> Inl e
      | Inr fd' \<Rightarrow> reformat_samples lang split rest fd')"

fun reformat_splits :: "string \<Rightarrow> split_table \<Rightarrow> final_data \<Rightarrow> py_error + final_data" where
  "reformat_splits lang [] fd = Inr fd"
| "reformat_splits lang ((split, lang_split_dict) # rest) fd =
     (case reformat_samples lang split lang_split_dict fd of
        Inl e \<Rightarrow> Inl e
      | Inr fd' \<Rightarrow> reformat_splits lang rest fd')"

fun reformat_langs :: "corpus \<Rightarrow> string list \<Rightarrow> final_data \<Rightarrow> py_error + final_data" where
  "reformat_langs all_data [] fd = Inr fd"
| "reformat_langs all_data (lang # langs) fd =
     (case dict_get lang all_data of Inl e \<Rightarrow> Inl e | Inr by_split \<Rightarrow>
      case reformat_splits lang by_split fd of
        Inl e \<Rightarrow> Inl e
      | Inr fd' \<Rightarrow> reformat_langs all_data langs fd')"

text \<open>Lines 131-136 print entry 2 of the train, dev and test list of both directions: a
  list with fewer than three entries raises IndexError.\<close>

fun print_examples :: "string \<Rightarrow> final_data \<Rightarrow> py_error + unit" where
  "print_examples split [] = Inr ()"
| "print_examples split ((k, v) # rest) =
     (case dict_get split v of Inl e \<Rightarrow> Inl e | Inr data \<Rightarrow>
        if 2 < length data then print_examples split rest else Inl IndexError)"

definition reformat_data_mapp :: "corpus \<Rightarrow> string list \<Rightarrow> py_error + final_data" where
  "reformat_data_mapp all_data langs =
     (case reformat_langs all_data langs final_data_init of Inl e \<Rightarrow> Inl e | Inr fd \<Rightarrow>
      case print_examples ''train'' fd of Inl e \<Rightarrow> Inl e | Inr _ \<Rightarrow>
      case print_examples ''dev'' fd of Inl e \<Rightarrow> Inl e | Inr _ \<Rightarrow>
      case print_examples ''test'' fd of Inl e \<Rightarrow> Inl e | Inr _ \<Rightarrow> Inr fd)"

section \<open>The Hindi/Turkish dev loader: get_hi_tr_dev_mapp\<close>

type_synonym hi_tr_dev = "(string \<times> string list) list"

text \<open>Lines 152-153.\<close>

definition hi_tr_dev_init :: hi_tr_dev where
  "hi_tr_dev_init = [(''hi'', []), (''tr'', [])]"

text \<open>Line 170, \<open>hi_tr_dev[lang].append(row[1])\<close>: the dictionary lookup comes first.\<close>

definition dev_row :: "string \<Rightarrow> row \<Rightarrow> hi_tr_dev \<Rightarrow> py_error + hi_tr_dev" where
  "dev_row lang r hi_tr_dev =
     (case dict_get lang hi_tr_dev of Inl e \<Rightarrow> Inl e | Inr utts \<Rightarrow>
      case col r 1 of Inl e \<Rightarrow> Inl e | Inr u \<Rightarrow>
        Inr (dict_set lang (utts @ [u]) hi_tr_dev))"

fun dev_rows :: "string \<Rightarrow> row list \<Rightarrow> hi_tr_dev \<Rightarrow> py_error + hi_tr_dev" where
  "dev_rows lang [] hi_tr_dev = Inr hi_tr_dev"
| "dev_rows lang (r # rs) hi_tr_dev =
     (case dev_row lang r hi_tr_dev of Inl e \<Rightarrow> Inl e | Inr h \<Rightarrow> dev_rows lang rs h)"

text \<open>Lines 161-170, one file: the header is dropped before the name is parsed.\<close>

definition dev_file :: "data_file \<Rightarrow> hi_tr_dev \<Rightarrow> py_error + hi_tr_dev" where
  "dev_file f hi_tr_dev =
     (if fst f = [] then Inr hi_tr_dev else
      case snd f of [] \<Rightarrow> Inl StopIteration | header # rows \<Rightarrow>
      case parse_mapp_name (fst f) of Inl e \<Rightarrow> Inl e | Inr (split, lang) \<Rightarrow>
        dev_rows lang rows hi_tr_dev)"

fun dev_files :: "data_file list \<Rightarrow> hi_tr_dev \<Rightarrow> py_error + hi_tr_dev" where
  "dev_files [] hi_tr_dev = Inr hi_tr_dev"
| "dev_files (f # fs) hi_tr_dev =
     (case dev_file f hi_tr_dev of Inl e \<Rightarrow> Inl e | Inr h \<Rightarrow> dev_files fs h)"

definition get_hi_tr_dev_mapp :: "data_file list \<Rightarrow> py_error + hi_tr_dev" where
  "get_hi_tr_dev_mapp files = dev_files files hi_tr_dev_init"

section \<open>The MultiATIS merger: data_import_ma\<close>

text \<open>Lines 203-206: the name splits at \<open>-\<close> into exactly two parts; the language is
  \<open>hi\<close> for \<open>Hindi\<close> and \<open>tr\<close> for anything else; the split is what stands before the first
  \<open>.\<close> and, in that, before the first \<open>_\<close>.\<close>

definition parse_ma_name :: "string \<Rightarrow> py_error + (string \<times> string)" where
  "parse_ma_name filename =
     (case split_on CHR ''-'' filename of
        [lang, split_ext] \<Rightarrow>
          (case index0 (split_on1 CHR ''.'' split_ext) of Inl e \<Rightarrow> Inl e | Inr stem \<Rightarrow>
           case index0 (split_on1 CHR ''_'' stem) of Inl e \<Rightarrow> Inl e | Inr split \<Rightarrow>
             Inr (if lang = ''Hindi'' then ''hi'' else ''tr'', split))
      | _ \<Rightarrow> Inl ValueError)"

text \<open>Lines 217-219: the same loop as in the reformatter, written with other literals.\<close>

fun slot_loop_ma :: "(string \<times> string) list \<Rightarrow> string \<Rightarrow> string" where
  "slot_loop_ma [] outstr = outstr"
| "slot_loop_ma ((token, slot) # ps) outstr =
     slot_loop_ma ps (if slot \<noteq> ''O'' then outstr @ token @ '' <'' @ slot @ ''> '' else outstr)"

text \<open>Lines 212-222: the output line of one row. The utterance is not lowercased here.\<close>

definition format_ma :: "string \<Rightarrow> string \<Rightarrow> string \<Rightarrow> string \<Rightarrow> string" where
  "format_ma lang intent noneng_utt noneng_slots =
     slot_loop_ma (zip (split_ws noneng_utt) (split_ws noneng_slots)) []
       @ ''<intent-'' @ intent @ ''> <lang-'' @ lang @ ''>''"

text \<open>\<open>for i in range(n)\<close> around the two appends (lines 230-232 and 235-237).\<close>

fun add_copies :: "nat \<Rightarrow> string \<Rightarrow> string \<Rightarrow> string \<Rightarrow> final_data \<Rightarrow> py_error + final_data" where
  "add_copies 0 split inp out fd = Inr fd"
| "add_copies (Suc n) split inp out fd =
     (case add_pair split inp out fd of Inl e \<Rightarrow> Inl e | Inr fd' \<Rightarrow> add_copies n split inp out fd')"

text \<open>Lines 228-240: what happens to a row whose utterance is not in the dev list.\<close>

definition ma_fallthrough ::
  "string \<Rightarrow> string \<Rightarrow> string \<Rightarrow> string \<Rightarrow> final_data \<Rightarrow> py_error + final_data" where
  "ma_fallthrough lang split noneng_utt outstr fd =
     (if lang = ''hi'' \<and> split = ''train'' then add_copies 3 split noneng_utt outstr fd
      else if lang = ''tr'' \<and> split = ''train'' then add_copies 7 split noneng_utt outstr fd
      else add_pair split noneng_utt outstr fd)"

text \<open>The state of the merger: \<open>final_data\<close> and \<open>hi_tr_dev\<close>, both mutated in place by
  the source. Line 224 is the test \<open>noneng_utt in hi_tr_dev[lang]\<close>; \<open>list.remove\<close> takes
  out the first equal entry.\<close>

type_synonym ma_state = "final_data \<times> hi_tr_dev"

definition ma_row :: "string \<Rightarrow> string \<Rightarrow> row \<Rightarrow> ma_state \<Rightarrow> py_error + ma_state" where
  "ma_row lang split r st =
     (case col r 3 of Inl e \<Rightarrow> Inl e | Inr intent \<Rightarrow>
      case col r 4 of Inl e \<Rightarrow> Inl e | Inr noneng_utt \<Rightarrow>
      case col r 5 of Inl e \<Rightarrow> Inl e | Inr noneng_slots \<Rightarrow>
      let outstr = format_ma lang (clean_intent intent) noneng_utt noneng_slots in
      case dict_get lang (snd st) of Inl e \<Rightarrow> Inl e | Inr dev \<Rightarrow>
        if noneng_utt \<in> set dev then
          (case add_pair ''dev'' noneng_utt outstr (fst st) of Inl e \<Rightarrow> Inl e | Inr fd' \<Rightarrow>
             Inr (fd', dict_set lang (remove1 noneng_utt dev) (snd st)))
        else
          (case ma_fallthrough lang split noneng_utt outstr (fst st) of Inl e \<Rightarrow> Inl e
           | Inr fd' \<Rightarrow> Inr (fd', snd st)))"

fun ma_rows :: "string \<Rightarrow> string \<Rightarrow> row list \<Rightarrow> ma_state \<Rightarrow> py_error + ma_state" where
  "ma_rows lang split [] st = Inr st"
| "ma_rows lang split (r # rs) st =
     (case ma_row lang split r st of Inl e \<Rightarrow> Inl e | Inr st' \<Rightarrow> ma_rows lang split rs st')"

text \<open>Lines 199-240, one file: no header row is dropped here.\<close>

definition ma_file :: "data_file \<Rightarrow> ma_state \<Rightarrow> py_error + ma_state" where
  "ma_file f st =
     (if fst f = [] then Inr st else
      case parse_ma_name (fst f) of Inl e \<Rightarrow> Inl e | Inr (lang, split) \<Rightarrow>
        ma_rows lang split (snd f) st)"

fun ma_files :: "data_file list \<Rightarrow> ma_state \<Rightarrow> py_error + ma_state" where
  "ma_files [] st = Inr st"
| "ma_files (f # fs) st =
     (case ma_file f st of Inl e \<Rightarrow> Inl e | Inr st' \<Rightarrow> ma_files fs st')"

definition data_import_ma :: "data_file list \<Rightarrow> final_data \<Rightarrow> hi_tr_dev \<Rightarrow> py_error + final_data" where
  "data_import_ma files final_data hi_tr_dev =
     (case ma_files files (final_data, hi_tr_dev) of Inl e \<Rightarrow> Inl e | Inr st \<Rightarrow> Inr (fst st))"

section \<open>The writer and the whole run\<close>

text \<open>Lines 259-261: every entry of a list is written and a line feed after it. This is
  the text of the file.\<close>

definition file_text :: "string list \<Rightarrow> string" where
  "file_text data = concat (map (\<lambda>line. line @ [CHR 0x0A]) data)"

text \<open>Lines 256-261: one file \<open>split.inout\<close> for every list, in the order of the
  dictionaries. The result is the list of the files written, each with its name and its
  text.\<close>

definition output_to_files :: "final_data \<Rightarrow> (string \<times> string) list" where
  "output_to_files fd =
     concat (map (\<lambda>(inout, inner_dict).
               map (\<lambda>(split, data). (split @ ''.'' @ inout, file_text data)) inner_dict) fd)"

text \<open>Lines 276-280. The arguments are the three input directories.\<close>

definition main ::
  "data_file list \<Rightarrow> data_file list \<Rightarrow> data_file list \<Rightarrow> py_error + (string \<times> string) list" where
  "main input_path_mapp input_path_ma input_path_hi_tr_dev =
     (case data_import_mapp input_path_mapp of Inl e \<Rightarrow> Inl e | Inr (mapp_raw_data, langs) \<Rightarrow>
      case reformat_data_mapp mapp_raw_data langs of Inl e \<Rightarrow> Inl e | Inr mapp_data \<Rightarrow>
      case get_hi_tr_dev_mapp input_path_hi_tr_dev of Inl e \<Rightarrow> Inl e | Inr hi_tr_dev \<Rightarrow>
      case data_import_ma input_path_ma mapp_data hi_tr_dev of Inl e \<Rightarrow> Inl e | Inr data \<Rightarrow>
        Inr (output_to_files data))"

section \<open>Notions used to state the properties\<close>

text \<open>\<open>final_data\<close> as the reformatter builds it and every later step keeps it: the six
  lists under their fixed keys.\<close>

definition mk_fd ::
  "string list \<Rightarrow> string list \<Rightarrow> string list \<Rightarrow> string list \<Rightarrow> string list \<Rightarrow> string list
   \<Rightarrow> final_data" where
  "mk_fd train_in dev_in test_in train_out dev_out test_out =
     [(''input'', [(''train'', train_in), (''dev'', dev_in), (''test'', test_in)]),
      (''output'', [(''train'', train_out), (''dev'', dev_out), (''test'', test_out)])]"

definition get_lines :: "final_data \<Rightarrow> string \<Rightarrow> string \<Rightarrow> string list" where
  "get_lines fd inout split =
     (case map_of fd inout of None \<Rightarrow> [] | Some inner \<Rightarrow>
      case map_of inner split of None \<Rightarrow> [] | Some data \<Rightarrow> data)"

text \<open>The input list and the output list of every split have the same length.\<close>

definition lockstep :: "final_data \<Rightarrow> bool" where
  "lockstep fd =
     (fd = mk_fd (get_lines fd ''input'' ''train'') (get_lines fd ''input'' ''dev'')
             (get_lines fd ''input'' ''test'') (get_lines fd ''output'' ''train'')
             (get_lines fd ''output'' ''dev'') (get_lines fd ''output'' ''test'')
      \<and> length (get_lines fd ''input'' ''train'') = length (get_lines fd ''output'' ''train'')
      \<and> length (get_lines fd ''input'' ''dev'') = length (get_lines fd ''output'' ''dev'')
      \<and> length (get_lines fd ''input'' ''test'') = length (get_lines fd ''output'' ''test''))"

text \<open>The specification's reading of intent cleaning: only a leading prefix goes.\<close>

definition strip_prefix :: "string \<Rightarrow> string \<Rightarrow> string" where
  "strip_prefix p s = (if prefix p s then drop (length p) s else s)"

text \<open>The specification's description of an output line: the pairs of token and tag whose
  tag is not the outside marker, each written as \<open>token <tag>\<close> and a blank.\<close>

definition kept :: "(string \<times> string) list \<Rightarrow> (string \<times> string) list" where
  "kept ps = filter (\<lambda>(token, slot). slot \<noteq> ''O'') ps"

definition render :: "(string \<times> string) list \<Rightarrow> string" where
  "render ps = concat (map (\<lambda>(token, slot). token @ '' <'' @ slot @ ''> '') ps)"

text \<open>A row of the merger reaches line 224 and the test there succeeds.\<close>

definition takes_dev_branch :: "string \<Rightarrow> row \<Rightarrow> ma_state \<Rightarrow> bool" where
  "takes_dev_branch lang r st =
     (case col r 4 of Inl e \<Rightarrow> False | Inr noneng_utt \<Rightarrow>
      case dict_get lang (snd st) of Inl e \<Rightarrow> False | Inr dev \<Rightarrow> noneng_utt \<in> set dev)"

text \<open>How many rows with utterance \<open>s\<close> take the dev branch while the row loop of a file
  runs from state \<open>st\<close>, each row judged in the state the loop has reached; the count
  ends where the run ends.\<close>

fun dev_routed_rows :: "string \<Rightarrow> string \<Rightarrow> string \<Rightarrow> row list \<Rightarrow> ma_state \<Rightarrow> nat" where
  "dev_routed_rows lang split s [] st = 0"
| "dev_routed_rows lang split s (r # rs) st =
     (case ma_row lang split r st of Inl e \<Rightarrow> 0 | Inr st' \<Rightarrow>
        (if col r 4 = Inr s \<and> takes_dev_branch lang r st then 1 else 0)
          + dev_routed_rows lang split s rs st')"

text \<open>The same for one file and for the files of the merger's directory, counting the
  rows of the files of language \<open>lang\<close>.\<close>

definition dev_routed_file :: "string \<Rightarrow> string \<Rightarrow> data_file \<Rightarrow> ma_state \<Rightarrow> nat" where
  "dev_routed_file lang s f st =
     (if fst f = [] then 0 else
      case parse_ma_name (fst f) of Inl e \<Rightarrow> 0 | Inr (l, split) \<Rightarrow>
        if l = lang then dev_routed_rows l split s (snd f) st else 0)"

fun dev_routed :: "string \<Rightarrow> string \<Rightarrow> data_file list \<Rightarrow> ma_state \<Rightarrow> nat" where
  "dev_routed lang s [] st = 0"
| "dev_routed lang s (f # fs) st =
     dev_routed_file lang s f st
       + (case ma_file f st of Inl e \<Rightarrow> 0 | Inr st' \<Rightarrow> dev_routed lang s fs st')"

text \<open>A MultiATIS++ file the loader cannot take: the name does not split into two parts
  at \<open>_\<close>, or its second part does not split into two parts at \<open>.\<close>, or a row after the
  header has fewer than four columns or a first column that is no integer.\<close>

definition bad_row :: "row \<Rightarrow> bool" where
  "bad_row r = (length r < 4 \<or> isl (py_int (r ! 0)))"

definition malformed :: "data_file \<Rightarrow> bool" where
  "malformed f =
     (length (split_on CHR ''_'' (fst f)) \<noteq> 2
      \<or> length (split_on CHR ''.'' (split_on CHR ''_'' (fst f) ! 1)) \<noteq> 2
      \<or> list_ex bad_row (tl (snd f)))"

text \<open>The number of lines of a text is the number of its line feeds; the entries of a
  list may hold line feeds of their own.\<close>

definition line_count :: "string \<Rightarrow> nat" where
  "line_count text = length (filter (\<lambda>c. c = CHR 0x0A) text)"

definition inner_line_feeds :: "string list \<Rightarrow> nat" where
  "inner_line_feeds data = sum_list (map line_count data)"

text \<open>The two files of a split, as written, have the same number of lines.\<close>

definition same_line_count :: "(string \<times> string) list \<Rightarrow> string \<Rightarrow> bool" where
  "same_line_count written split =
     (case (map_of written (split @ ''.input''), map_of written (split @ ''.output'')) of
        (Some a, Some b) \<Rightarrow> line_count a = line_count b
      | _ \<Rightarrow> False)"

section \<open>Example directories\<close>

text \<open>A small MultiATIS++ directory (with the German test record 1007 that the loader
  logs, and a repeated id in the train file), a dev directory for Hindi, and a MultiATIS
  directory whose Hindi train file repeats one utterance.\<close>

definition example_mapp_dir :: "data_file list" where
  "example_mapp_dir =
     [(''test_DE.tsv'', [[''id'', ''utterance'', ''slot_labels'', ''intent''],
         [''1007'', ''Nach Boston'', ''O B-toloc'', ''atis_flight''],
         [''1'', ''ab Denver'', ''O B-fromloc'', ''atis_flight''],
         [''2'', ''Preis'', ''O'', ''atis_airfare'']]),
      (''train_DE.tsv'', [[''id'', ''utterance'', ''slot_labels'', ''intent''],
         [''1'', ''Nach Wien'', ''O B-toloc'', ''atis_flight''],
         [''2'', ''ab Wien'', ''O B-fromloc'', ''atis_flight''],
         [''2'', ''ab Graz'', ''O B-fromloc'', ''atis_flight''],
         [''3'', ''Preis'', ''O'', ''atis_airfare'']]),
      (''dev_DE.tsv'', [[''id'', ''utterance'', ''slot_labels'', ''intent''],
         [''1'', ''Nach Rom'', ''O B-toloc'', ''atis_flight''],
         [''2'', ''ab Rom'', ''O B-fromloc'', ''atis_flight''],
         [''3'', ''Preis'', ''O'', ''atis_airfare'']])]"

definition example_dev_dir :: "data_file list" where
  "example_dev_dir =
     [(''dev_HI.tsv'', [[''id'', ''utterance'', ''slot_labels'', ''intent''],
         [''1'', ''dilli se'', ''B-fromloc O'', ''atis_flight'']])]"

definition example_ma_dir :: "data_file list" where
  "example_ma_dir =
     [(''Hindi-train_600.tsv'',
         [[''1'', ''from delhi'', ''O B-fromloc'', ''atis_flight'', ''dilli se'', ''B-fromloc O''],
          [''2'', ''from delhi'', ''O B-fromloc'', ''atis_flight'', ''dilli se'', ''B-fromloc O'']]),
      (''Turkish-test.tsv'',
         [[''1'', ''to rome'', ''O B-toloc'', ''atis_flight'', ''Roma ya'', ''B-toloc O'']])]"

definition example_row :: row where
  "example_row = [''2'', ''from delhi'', ''O B-fromloc'', ''atis_flight'', ''dilli se'', ''B-fromloc O'']"

definition example_hi_tr_dev :: hi_tr_dev where
  "example_hi_tr_dev = [(''hi'', [''dilli se'']), (''tr'', [])]"

definition example_fd :: final_data where
  "example_fd = mk_fd [] [''dilli se''] [] [] [''dilli <B-fromloc> <intent-flight> <lang-hi>''] []"

text \<open>What the stages make of the example directories: the corpus table, the
  reformatter's lists, the lists after one more Turkish test row, and the final lists.\<close>

definition example_corpus :: corpus where
  "example_corpus =
     [(''de'',
       [(''test'', [(1007, (''Nach Boston'', ''O B-toloc'', ''flight'')),
                    (1, (''ab Denver'', ''O B-fromloc'', ''flight'')),
                    (2, (''Preis'', ''O'', ''airfare''))]),
        (''train'', [(1, (''Nach Wien'', ''O B-toloc'', ''flight'')),
                     (2, (''ab Graz'', ''O B-fromloc'', ''flight'')),
                     (3, (''Preis'', ''O'', ''airfare''))]),
        (''dev'', [(1, (''Nach Rom'', ''O B-toloc'', ''flight'')),
                   (2, (''ab Rom'', ''O B-fromloc'', ''flight'')),
                   (3, (''Preis'', ''O'', ''airfare''))])])]"

definition example_mapp_data :: final_data where
  "example_mapp_data =
     mk_fd [''nach wien'', ''ab graz'', ''preis''] [''nach rom'', ''ab rom'', ''preis'']
       [''nach boston'', ''ab denver'', ''preis'']
       [''wien <B-toloc> <intent-flight> <lang-de>'',
        ''graz <B-fromloc> <intent-flight> <lang-de>'', ''<intent-airfare> <lang-de>'']
       [''rom <B-toloc> <intent-flight> <lang-de>'',
        ''rom <B-fromloc> <intent-flight> <lang-de>'', ''<intent-airfare> <lang-de>'']
       [''boston <B-toloc> <intent-flight> <lang-de>'',
        ''denver <B-fromloc> <intent-flight> <lang-de>'', ''<intent-airfare> <lang-de>'']"

definition example_data :: final_data where
  "example_data =
     mk_fd [''nach wien'', ''ab graz'', ''preis'', ''dilli se'', ''dilli se'', ''dilli se'']
       [''nach rom'', ''ab rom'', ''preis'', ''dilli se'']
       [''nach boston'', ''ab denver'', ''preis'', ''Roma ya'']
       [''wien <B-toloc> <intent-flight> <lang-de>'',
        ''graz <B-fromloc> <intent-flight> <lang-de>'', ''<intent-airfare> <lang-de>'',
        ''dilli <B-fromloc> <intent-flight> <lang-hi>'',
        ''dilli <B-fromloc> <intent-flight> <lang-hi>'',
        ''dilli <B-fromloc> <intent-flight> <lang-hi>'']
       [''rom <B-toloc> <intent-flight> <lang-de>'',
        ''rom <B-fromloc> <intent-flight> <lang-de>'', ''<intent-airfare> <lang-de>'',
        ''dilli <B-fromloc> <intent-flight> <lang-hi>'']
       [''boston <B-toloc> <intent-flight> <lang-de>'',
        ''denver <B-fromloc> <intent-flight> <lang-de>'', ''<intent-airfare> <lang-de>'',
        ''Roma <B-toloc> <intent-flight> <lang-tr>'']"

definition example_after_row :: final_data where
  "example_after_row =
     mk_fd [''nach wien'', ''ab graz'', ''preis''] [''nach rom'', ''ab rom'', ''preis'']
       [''nach boston'', ''ab denver'', ''preis'', ''dilli se'']
       [''wien <B-toloc> <intent-flight> <lang-de>'',
        ''graz <B-fromloc> <intent-flight> <lang-de>'', ''<intent-airfare> <lang-de>'']
       [''rom <B-toloc> <intent-flight> <lang-de>'',
        ''rom <B-fromloc> <intent-flight> <lang-de>'', ''<intent-airfare> <lang-de>'']
       [''boston <B-toloc> <intent-flight> <lang-de>'',
        ''denver <B-fromloc> <intent-flight> <lang-de>'', ''<intent-airfare> <lang-de>'',
        ''dilli <B-fromloc> <intent-flight> <lang-tr>'']"

text \<open>A MultiATIS directory whose Turkish test row has a line feed inside its utterance
  (a quoted field of the file), and the lists the run ends with.\<close>

definition example_lf_ma_dir :: "data_file list" where
  "example_lf_ma_dir =
     [(''Turkish-test.tsv'',
         [[''1'', ''to rome'', ''O B-toloc'', ''atis_flight'', ''Roma'' @ [CHR 0x0A] @ ''ya'',
           ''B-toloc O'']])]"

definition example_lf_data :: final_data where
  "example_lf_data =
     mk_fd [''nach wien'', ''ab graz'', ''preis''] [''nach rom'', ''ab rom'', ''preis'']
       [''nach boston'', ''ab denver'', ''preis'', ''Roma'' @ [CHR 0x0A] @ ''ya'']
       [''wien <B-toloc> <intent-flight> <lang-de>'',
        ''graz <B-fromloc> <intent-flight> <lang-de>'', ''<intent-airfare> <lang-de>'']
       [''rom <B-toloc> <intent-flight> <lang-de>'',
        ''rom <B-fromloc> <intent-flight> <lang-de>'', ''<intent-airfare> <lang-de>'']
       [''boston <B-toloc> <intent-flight> <lang-de>'',
        ''denver <B-fromloc> <intent-flight> <lang-de>'', ''<intent-airfare> <lang-de>'',
        ''Roma <B-toloc> <intent-flight> <lang-tr>'']"

text \<open>Three directories the loader cannot take, and the rows of a file with a repeated
  id together with the table they leave.\<close>

definition example_bad_names :: "data_file list" where
  "example_bad_names =
     [(''train_DE.tsv'', [[''id'', ''utterance'', ''slot_labels'', ''intent''],
         [''1'', ''Nach Wien'', ''O B-toloc'', ''atis_flight'']]),
      (''dev-DE.tsv'', [[''id'', ''utterance'', ''slot_labels'', ''intent'']])]"

definition example_short_row :: "data_file list" where
  "example_short_row =
     [(''train_DE.tsv'', [[''id'', ''utterance'', ''slot_labels'', ''intent''],
         [''1'', ''Nach Wien'', ''O B-toloc'', ''atis_flight''],
         [''2'', ''ab Wien'', ''O B-fromloc'']])]"

definition example_bad_id :: "data_file list" where
  "example_bad_id =
     [(''train_DE.tsv'', [[''id'', ''utterance'', ''slot_labels'', ''intent''],
         [''1'', ''Nach Wien'', ''O B-toloc'', ''atis_flight''],
         [''2a'', ''ab Wien'', ''O B-fromloc'', ''atis_flight'']])]"

definition example_rows :: "row list" where
  "example_rows =
     [[''1'', ''Nach Wien'', ''O B-toloc'', ''atis_flight''],
      [''2'', ''ab Wien'', ''O B-fromloc'', ''atis_flight''],
      [''2'', ''ab Graz'', ''O B-fromloc'', ''atis_flight''],
      [''3'', ''Preis'', ''O'', ''atis_airfare'']]"

definition example_by_id :: id_table where
  "example_by_id =
     [(1, (''Nach Wien'', ''O B-toloc'', ''flight'')),
      (2, (''ab Graz'', ''O B-fromloc'', ''flight'')),
      (3, (''Preis'', ''O'', ''airfare''))]"

section \<open>Intent cleaning\<close>

lemma py_replace_Nil: "old \<noteq> [] \<Longrightarrow> py_replace old new [] = []"
  by (simp add: py_replace.simps)

lemma py_replace_absent:
  "old \<noteq> [] \<Longrightarrow> \<not> contains old s \<Longrightarrow> py_replace old new s = s"
proof (induction s)
  case Nil
  then show ?case by (simp add: py_replace.simps)
next
  case (Cons c cs)
  then show ?case by (subst py_replace.simps) simp
qed

lemma py_replace_match:
  "old \<noteq> [] \<Longrightarrow> prefix old s \<Longrightarrow>
   py_replace old new s = new @ py_replace old new (drop (length old) s)"
  by (subst py_replace.simps) auto

lemma py_replace_nomatch:
  "old \<noteq> [] \<Longrightarrow> s \<noteq> [] \<Longrightarrow> \<not> prefix old s \<Longrightarrow>
   py_replace old new s = hd s # py_replace old new (tl s)"
  by (subst py_replace.simps) auto

lemma prefix_long: "length p \<le> length s \<Longrightarrow> prefix p (s @ t) = prefix p s"
proof
  assume l: "length p \<le> length s" and "prefix p (s @ t)"
  moreover have "prefix s (s @ t)" by simp
  ultimately show "prefix p s" by (rule prefix_length_prefix[rotated 2, of p s "s @ t"]; simp)
qed (simp add: prefix_prefix)

text \<open>An occurrence of \<open>atis_\<close> cannot begin inside the last four characters before
  another one: the word has no proper border.\<close>

lemma atis_no_border:
  assumes "a \<noteq> []" and "length a < 5"
  shows "\<not> prefix ''atis_'' (a @ ''atis_'' @ b)"
proof -
  from assms obtain c1 r1 where a1: "a = c1 # r1" by (cases a) auto
  show ?thesis
  proof (cases r1)
    case Nil
    with a1 show ?thesis by auto
  next
    case (Cons c2 r2)
    note r1 = this
    show ?thesis
    proof (cases r2)
      case Nil
      with a1 r1 show ?thesis by auto
    next
      case (Cons c3 r3)
      note r2 = this
      show ?thesis
      proof (cases r3)
        case Nil
        with a1 r1 r2 show ?thesis by auto
      next
        case (Cons c4 r4)
        with a1 r1 r2 assms(2) have "r4 = []" by simp
        with a1 r1 r2 Cons show ?thesis by auto
      qed
    qed
  qed
qed

text \<open>Deleting a word without a proper border: an occurrence anywhere contributes
  nothing, and what stands left and right of it is cleaned on its own.\<close>

lemma py_replace_occurrence:
  assumes ne: "old \<noteq> []"
    and nb: "\<And>a b. a \<noteq> [] \<Longrightarrow> length a < length old \<Longrightarrow> \<not> prefix old (a @ old @ b)"
  shows "py_replace old [] (a @ old @ b) = py_replace old [] a @ py_replace old [] b"
proof (induction a rule: length_induct)
  case (1 a)
  show ?case
  proof (cases "a = []")
    case True
    have "py_replace old [] (old @ b) = py_replace old [] b"
      using py_replace_match[OF ne, of "old @ b" "[]"] by simp
    then show ?thesis using True ne by (simp add: py_replace_Nil)
  next
    case False
    show ?thesis
    proof (cases "prefix old a")
      case True
      then have len: "length old \<le> length a" by (auto simp: prefix_def)
      then have pre: "prefix old (a @ old @ b)" using True by (simp add: prefix_long)
      have d: "drop (length old) (a @ old @ b) = drop (length old) a @ old @ b" using len by simp
      have "length (drop (length old) a) < length a" using len ne False by simp
      with 1 have ih: "py_replace old [] (drop (length old) a @ old @ b)
          = py_replace old [] (drop (length old) a) @ py_replace old [] b"
        by blast
      show ?thesis
        using py_replace_match[OF ne pre, of "[]"] py_replace_match[OF ne True, of "[]"] d ih
        by simp
    next
      case np: False
      have npre: "\<not> prefix old (a @ old @ b)"
      proof (cases "length a < length old")
        case True
        with False show ?thesis by (rule nb)
      next
        case False
        then show ?thesis using np by (simp add: prefix_long)
      qed
      have "length (tl a) < length a" using False by simp
      with 1 have ih: "py_replace old [] (tl a @ old @ b)
          = py_replace old [] (tl a) @ py_replace old [] b"
        by blast
      have ne2: "a @ old @ b \<noteq> []" using False by simp
      show ?thesis
        using py_replace_nomatch[OF ne ne2 npre, of "[]"] py_replace_nomatch[OF ne False np, of "[]"]
          ih False
        by simp
    qed
  qed
qed

lemma clean_intent_occurrence:
  "clean_intent (a @ ''atis_'' @ b) = clean_intent a @ clean_intent b"
  unfolding clean_intent_def
proof (rule py_replace_occurrence)
  show "''atis_'' \<noteq> []" by simp
next
  fix a b :: string
  assume "a \<noteq> []" and "length a < length ''atis_''"
  then show "\<not> prefix ''atis_'' (a @ ''atis_'' @ b)"
    using atis_no_border[of a b] by simp
qed

lemma clean_intent_absent: "\<not> contains ''atis_'' s \<Longrightarrow> clean_intent s = s"
  unfolding clean_intent_def by (rule py_replace_absent) simp_all

lemma clean_intent_flight: "clean_intent ''atis_flight'' = ''flight''"
  by code_simp

text \<open>
  Claim C8. Intent cleaning deletes every occurrence of \<open>atis_\<close>, wherever it stands in
  the intent, not only a leading one: an intent with an occurrence between any \<open>a\<close> and
  \<open>b\<close> is cleaned to the cleaned \<open>a\<close> followed by the cleaned \<open>b\<close>. So \<open>atis_atis_flight\<close>
  becomes \<open>flight\<close>, and the occurrence in the middle of \<open>flight+atis_airfare\<close> goes too.
\<close>

theorem clean_intent_deletes_every_occurrence:
  "clean_intent (a @ ''atis_'' @ b) = clean_intent a @ clean_intent b
   \<and> clean_intent ''atis_atis_flight'' = ''flight''
   \<and> clean_intent ''flight+atis_airfare'' = ''flight+airfare''"
proof -
  have "clean_intent ''atis_atis_flight'' = ''flight''" by code_simp
  moreover have "clean_intent ''flight+atis_airfare'' = ''flight+airfare''" by code_simp
  ultimately show ?thesis using clean_intent_occurrence[of a b] by simp
qed

text \<open>
  Claim C6, as the code has it. The stored intent is the source intent with the leading
  \<open>atis_\<close> stripped whenever what is left holds no further \<open>atis_\<close>; the loader stores the
  cleaned intent under the row's id; and a record whose source intent is \<open>atis_flight\<close>
  gets the marker \<open><intent-flight>\<close> in its output line, in the reformatter and in the
  merger.
\<close>

theorem intent_prefix_stripped:
  "(\<not> contains ''atis_'' (strip_prefix ''atis_'' intent) \<longrightarrow>
      clean_intent intent = strip_prefix ''atis_'' intent)
   \<and> (py_int eye_d = Inr i \<longrightarrow>
      mapp_row [eye_d, utterance, slots, intent] by_id
        = Inr (dict_set i (utterance, slots, clean_intent intent) by_id))
   \<and> snd (format_mapp lang (utterance, slots, clean_intent ''atis_flight''))
       = slot_loop (zip (split_ws (lower utterance)) (split_ws slots)) []
           @ ''<intent-flight> <lang-'' @ lang @ ''>''
   \<and> format_ma lang (clean_intent ''atis_flight'') utterance slots
       = slot_loop_ma (zip (split_ws utterance) (split_ws slots)) []
           @ ''<intent-flight> <lang-'' @ lang @ ''>''"
proof -
  have strip: "clean_intent intent = strip_prefix ''atis_'' intent"
    if absent: "\<not> contains ''atis_'' (strip_prefix ''atis_'' intent)"
  proof (cases "prefix ''atis_'' intent")
    case True
    then obtain x where x: "intent = ''atis_'' @ x" by (auto simp: prefix_def)
    then have s: "strip_prefix ''atis_'' intent = x" by (simp add: strip_prefix_def)
    have "clean_intent ([] @ ''atis_'' @ x) = clean_intent [] @ clean_intent x"
      by (rule clean_intent_occurrence)
    moreover have "clean_intent [] = []" by (rule clean_intent_absent) simp
    moreover have "clean_intent x = x" using absent s by (simp add: clean_intent_absent)
    ultimately show ?thesis using x s by simp
  next
    case False
    then have "strip_prefix ''atis_'' intent = intent" by (simp add: strip_prefix_def)
    with absent show ?thesis by (simp add: clean_intent_absent)
  qed
  have row: "mapp_row [eye_d, utterance, slots, intent] by_id
        = Inr (dict_set i (utterance, slots, clean_intent intent) by_id)"
    if "py_int eye_d = Inr i"
    using that by (simp add: mapp_row_def col_def)
  have m1: "snd (format_mapp lang (utterance, slots, clean_intent ''atis_flight''))
       = slot_loop (zip (split_ws (lower utterance)) (split_ws slots)) []
           @ ''<intent-flight> <lang-'' @ lang @ ''>''"
    by (simp add: format_mapp_def Let_def clean_intent_flight)
  have m2: "format_ma lang (clean_intent ''atis_flight'') utterance slots
       = slot_loop_ma (zip (split_ws utterance) (split_ws slots)) []
           @ ''<intent-flight> <lang-'' @ lang @ ''>''"
    by (simp add: format_ma_def clean_intent_flight)
  show ?thesis using strip row m1 m2 by blast
qed

theorem intent_prefix_stripped_witness:
  "\<not> contains ''atis_'' (strip_prefix ''atis_'' ''atis_airfare'')
   \<and> clean_intent ''atis_airfare'' = ''airfare''
   \<and> py_int ''1007'' = Inr 1007
   \<and> mapp_row [''1007'', ''zeige fluege'', ''O O'', ''atis_airfare''] []
       = Inr [(1007, (''zeige fluege'', ''O O'', ''airfare''))]"
proof -
  have h: "\<not> contains ''atis_'' (strip_prefix ''atis_'' ''atis_airfare'')" by code_simp
  have s: "strip_prefix ''atis_'' ''atis_airfare'' = ''airfare''" by code_simp
  have i: "py_int ''1007'' = Inr 1007" by code_simp
  show ?thesis
    using h s i
      intent_prefix_stripped[of "''atis_airfare''" "''1007''" 1007 "''zeige fluege''" "''O O''" "[]"]
    by simp
qed

text \<open>
  Claim C6, as the specification words it, fails: the intent \<open>atis_flight+atis_airfare\<close>
  of the ATIS corpus is stored as \<open>flight+airfare\<close>, which is not the source intent with
  its leading prefix stripped.
\<close>

theorem intent_prefix_only_counterexample:
  "clean_intent ''atis_flight+atis_airfare'' \<noteq> strip_prefix ''atis_'' ''atis_flight+atis_airfare''"
  by code_simp

section \<open>The lines of one record\<close>

lemma slot_loop_render: "slot_loop ps outstr = outstr @ render (kept ps)"
  by (induction ps outstr rule: slot_loop.induct) (simp_all add: kept_def render_def)

lemma slot_loop_ma_render: "slot_loop_ma ps outstr = outstr @ render (kept ps)"
  by (induction ps outstr rule: slot_loop_ma.induct) (simp_all add: kept_def render_def)

lemma length_kept_zip: "length (kept (zip xs ys)) \<le> length xs"
proof -
  have "length (kept (zip xs ys)) \<le> length (zip xs ys)"
    unfolding kept_def by (rule length_filter_le)
  also have "\<dots> \<le> length xs" by simp
  finally show ?thesis .
qed

text \<open>
  Claim C4. The record with utterance \<open>flights from boston to denver\<close>, the tags
  \<open>O O B-fromloc.city_name O B-toloc.city_name\<close> and the intent \<open>atis_flight\<close>, loaded from
  a row and reformatted for the language \<open>en\<close>, adds the input line
  \<open>flights from boston to denver\<close> and the output line
  \<open>boston <B-fromloc.city_name> denver <B-toloc.city_name> <intent-flight> <lang-en>\<close>.
\<close>

theorem reformat_boston_denver:
  "(case mapp_row [''7'', ''flights from boston to denver'',
                   ''O O B-fromloc.city_name O B-toloc.city_name'', ''atis_flight''] [] of
      Inl e \<Rightarrow> Inl e
    | Inr by_id \<Rightarrow> reformat_samples ''en'' ''train'' by_id final_data_init)
   = Inr (mk_fd [''flights from boston to denver''] [] []
       [''boston <B-fromloc.city_name> denver <B-toloc.city_name> <intent-flight> <lang-en>'']
       [] [])"
  by code_simp

lemma is_space_lower_char: "is_space (lower_char c) = is_space c"
proof -
  define n where "n = (of_char c :: nat)"
  show ?thesis
  proof (cases "(65 \<le> n \<and> n \<le> 90) \<or> (192 \<le> n \<and> n \<le> 222 \<and> n \<noteq> 215)")
    case True
    then have l: "lower_char c = char_of (n + 32)" by (simp add: lower_char_def n_def Let_def)
    have "(n + 32) mod 256 = n + 32" using True by auto
    then have v: "(of_char (char_of (n + 32) :: char) :: nat) = n + 32"
      by (simp add: of_char_of)
    have a: "\<not> is_space c" unfolding is_space_def n_def[symmetric] using True by auto
    have b: "\<not> is_space (char_of (n + 32))" unfolding is_space_def v using True by auto
    show ?thesis using a b l by simp
  next
    case False
    have "lower_char c = c"
      unfolding lower_char_def Let_def n_def[symmetric] using False by auto
    then show ?thesis by simp
  qed
qed

lemma split_ws_aux_lower:
  "map (map lower_char) (split_ws_aux cur s)
     = split_ws_aux (map lower_char cur) (map lower_char s)"
  by (induction s arbitrary: cur) (simp_all add: is_space_lower_char)

lemma length_split_ws_lower: "length (split_ws (lower s)) = length (split_ws s)"
  using arg_cong[OF split_ws_aux_lower[of "[]" s], of length]
  by (simp add: split_ws_def lower_def)

text \<open>
  Claim C5. In the reformatter and in the merger, the output line of a record is the
  rendering of the kept pairs (token and tag paired by position up to the shorter
  sequence, tag not \<open>O\<close>) followed by the two markers, and the number of kept pairs, which
  is the number of utterance tokens emitted, is at most the number of whitespace tokens of
  the input line; in the reformatter that is also the number of tokens of the utterance
  before it is lowercased.
\<close>

theorem emitted_tokens_at_most_input_tokens:
  "snd (format_mapp lang (utterance, slots, intent))
     = render (kept (zip (split_ws (lower utterance)) (split_ws slots)))
         @ ''<intent-'' @ intent @ ''> <lang-'' @ lang @ ''>''
   \<and> length (kept (zip (split_ws (lower utterance)) (split_ws slots)))
       \<le> length (split_ws (fst (format_mapp lang (utterance, slots, intent))))
   \<and> length (kept (zip (split_ws (lower utterance)) (split_ws slots)))
       \<le> length (split_ws utterance)
   \<and> format_ma lang intent noneng_utt noneng_slots
     = render (kept (zip (split_ws noneng_utt) (split_ws noneng_slots)))
         @ ''<intent-'' @ intent @ ''> <lang-'' @ lang @ ''>''
   \<and> length (kept (zip (split_ws noneng_utt) (split_ws noneng_slots)))
       \<le> length (split_ws noneng_utt)"
proof -
  have "length (kept (zip (split_ws (lower utterance)) (split_ws slots)))
      \<le> length (split_ws (lower utterance))"
    by (rule length_kept_zip)
  then have "length (kept (zip (split_ws (lower utterance)) (split_ws slots)))
      \<le> length (split_ws utterance)"
    by (simp add: length_split_ws_lower)
  then show ?thesis
    by (simp add: format_mapp_def format_ma_def Let_def slot_loop_render slot_loop_ma_render
        length_kept_zip)
qed

section \<open>The six lists stay in lockstep\<close>

lemma add_pair_mk_fd:
  "add_pair split x y (mk_fd t1 d1 e1 t2 d2 e2) =
     (if split = ''train'' then Inr (mk_fd (t1 @ [x]) d1 e1 (t2 @ [y]) d2 e2)
      else if split = ''dev'' then Inr (mk_fd t1 (d1 @ [x]) e1 t2 (d2 @ [y]) e2)
      else if split = ''test'' then Inr (mk_fd t1 d1 (e1 @ [x]) t2 d2 (e2 @ [y]))
      else Inl KeyError)"
  by (simp add: add_pair_def fd_append_def dict_get_def mk_fd_def)

lemma add_copies_train:
  "add_copies n ''train'' x y (mk_fd t1 d1 e1 t2 d2 e2)
     = Inr (mk_fd (t1 @ replicate n x) d1 e1 (t2 @ replicate n y) d2 e2)"
  by (induction n arbitrary: t1 t2) (simp_all add: add_pair_mk_fd replicate_app_Cons_same)

lemma get_lines_mk_fd:
  "get_lines (mk_fd t1 d1 e1 t2 d2 e2) ''input'' ''train'' = t1"
  "get_lines (mk_fd t1 d1 e1 t2 d2 e2) ''input'' ''dev'' = d1"
  "get_lines (mk_fd t1 d1 e1 t2 d2 e2) ''input'' ''test'' = e1"
  "get_lines (mk_fd t1 d1 e1 t2 d2 e2) ''output'' ''train'' = t2"
  "get_lines (mk_fd t1 d1 e1 t2 d2 e2) ''output'' ''dev'' = d2"
  "get_lines (mk_fd t1 d1 e1 t2 d2 e2) ''output'' ''test'' = e2"
  by (simp_all add: get_lines_def mk_fd_def)

lemma lockstep_mk_fd:
  "lockstep (mk_fd t1 d1 e1 t2 d2 e2)
     = (length t1 = length t2 \<and> length d1 = length d2 \<and> length e1 = length e2)"
  by (simp add: lockstep_def get_lines_mk_fd)

lemma lockstepE:
  assumes "lockstep fd"
  obtains t1 d1 e1 t2 d2 e2 where "fd = mk_fd t1 d1 e1 t2 d2 e2"
    and "length t1 = length t2" and "length d1 = length d2" and "length e1 = length e2"
  using assms unfolding lockstep_def by blast

lemma add_pair_lockstep:
  assumes "lockstep fd" and "add_pair split x y fd = Inr fd'"
  shows "lockstep fd'"
proof -
  from assms(1) obtain t1 d1 e1 t2 d2 e2 where fd: "fd = mk_fd t1 d1 e1 t2 d2 e2"
    and l: "length t1 = length t2" "length d1 = length d2" "length e1 = length e2"
    by (rule lockstepE)
  from assms(2) show ?thesis
    unfolding fd add_pair_mk_fd using l by (auto simp: lockstep_mk_fd split: if_splits)
qed

lemma add_copies_lockstep:
  "lockstep fd \<Longrightarrow> add_copies n split x y fd = Inr fd' \<Longrightarrow> lockstep fd'"
proof (induction n arbitrary: fd)
  case 0
  then show ?case by simp
next
  case (Suc n)
  then show ?case by (auto split: sum.splits dest: add_pair_lockstep)
qed

lemma ma_fallthrough_lockstep:
  "lockstep fd \<Longrightarrow> ma_fallthrough lang split x y fd = Inr fd' \<Longrightarrow> lockstep fd'"
  unfolding ma_fallthrough_def
  by (auto split: if_splits dest: add_pair_lockstep add_copies_lockstep)

lemma ma_row_lockstep:
  assumes "lockstep (fst st)" and "ma_row lang split r st = Inr st'"
  shows "lockstep (fst st')"
  using assms unfolding ma_row_def Let_def
  by (auto split: sum.splits if_splits dest: add_pair_lockstep ma_fallthrough_lockstep)

lemma ma_rows_lockstep:
  "lockstep (fst st) \<Longrightarrow> ma_rows lang split rs st = Inr st' \<Longrightarrow> lockstep (fst st')"
proof (induction rs arbitrary: st)
  case Nil
  then show ?case by simp
next
  case (Cons r rs)
  then show ?case by (auto split: sum.splits dest: ma_row_lockstep)
qed

lemma ma_file_lockstep:
  "lockstep (fst st) \<Longrightarrow> ma_file f st = Inr st' \<Longrightarrow> lockstep (fst st')"
  unfolding ma_file_def
  by (auto split: sum.splits if_splits prod.splits dest: ma_rows_lockstep)

lemma ma_files_lockstep:
  "lockstep (fst st) \<Longrightarrow> ma_files fs st = Inr st' \<Longrightarrow> lockstep (fst st')"
proof (induction fs arbitrary: st)
  case Nil
  then show ?case by simp
next
  case (Cons f fs)
  then show ?case by (auto split: sum.splits dest: ma_file_lockstep)
qed

lemma data_import_ma_lockstep:
  "lockstep fd \<Longrightarrow> data_import_ma files fd h = Inr fd' \<Longrightarrow> lockstep fd'"
  unfolding data_import_ma_def
  using ma_files_lockstep[of "(fd, h)" files] by (auto split: sum.splits)

lemma reformat_samples_lockstep:
  "lockstep fd \<Longrightarrow> reformat_samples lang split tbl fd = Inr fd' \<Longrightarrow> lockstep fd'"
proof (induction tbl arbitrary: fd)
  case Nil
  then show ?case by simp
next
  case (Cons p tbl)
  then show ?case by (cases p) (auto split: sum.splits dest: add_pair_lockstep)
qed

lemma reformat_splits_lockstep:
  "lockstep fd \<Longrightarrow> reformat_splits lang sps fd = Inr fd' \<Longrightarrow> lockstep fd'"
proof (induction sps arbitrary: fd)
  case Nil
  then show ?case by simp
next
  case (Cons p sps)
  then show ?case by (cases p) (auto split: sum.splits dest: reformat_samples_lockstep)
qed

lemma reformat_langs_lockstep:
  "lockstep fd \<Longrightarrow> reformat_langs ad ls fd = Inr fd' \<Longrightarrow> lockstep fd'"
proof (induction ls arbitrary: fd)
  case Nil
  then show ?case by simp
next
  case (Cons l ls)
  then show ?case by (auto split: sum.splits dest: reformat_splits_lockstep)
qed

lemma final_data_init_mk_fd: "final_data_init = mk_fd [] [] [] [] [] []"
  by (simp add: final_data_init_def mk_fd_def)

lemma reformat_data_mapp_lockstep:
  assumes "reformat_data_mapp ad ls = Inr fd"
  shows "lockstep fd"
proof -
  have "lockstep final_data_init" by (simp add: final_data_init_mk_fd lockstep_mk_fd)
  moreover from assms have "reformat_langs ad ls final_data_init = Inr fd"
    unfolding reformat_data_mapp_def by (auto split: sum.splits)
  ultimately show ?thesis by (rule reformat_langs_lockstep)
qed

lemma output_to_files_mk_fd:
  "output_to_files (mk_fd t1 d1 e1 t2 d2 e2) =
     [(''train.input'', file_text t1), (''dev.input'', file_text d1),
      (''test.input'', file_text e1), (''train.output'', file_text t2),
      (''dev.output'', file_text d2), (''test.output'', file_text e2)]"
  by (simp add: output_to_files_def mk_fd_def)

lemma line_count_file_text: "line_count (file_text data) = length data + inner_line_feeds data"
  by (induction data) (simp_all add: line_count_def file_text_def inner_line_feeds_def)

lemma inner_line_feeds_none:
  "\<forall>line \<in> set data. CHR 0x0A \<notin> set line \<Longrightarrow> inner_line_feeds data = 0"
  by (induction data) (auto simp: inner_line_feeds_def line_count_def filter_empty_conv)

lemma written_files:
  assumes "lockstep fd" and "split \<in> {''train'', ''dev'', ''test''}"
  shows "map_of (output_to_files fd) (split @ ''.input'')
           = Some (file_text (get_lines fd ''input'' split))"
    and "map_of (output_to_files fd) (split @ ''.output'')
           = Some (file_text (get_lines fd ''output'' split))"
    and "length (get_lines fd ''input'' split) = length (get_lines fd ''output'' split)"
proof -
  from assms(1) obtain t1 d1 e1 t2 d2 e2 where fd: "fd = mk_fd t1 d1 e1 t2 d2 e2"
    and l: "length t1 = length t2" "length d1 = length d2" "length e1 = length e2"
    by (rule lockstepE)
  show "map_of (output_to_files fd) (split @ ''.input'')
           = Some (file_text (get_lines fd ''input'' split))"
    using assms(2) unfolding fd output_to_files_mk_fd by (auto simp: get_lines_mk_fd)
  show "map_of (output_to_files fd) (split @ ''.output'')
           = Some (file_text (get_lines fd ''output'' split))"
    using assms(2) unfolding fd output_to_files_mk_fd by (auto simp: get_lines_mk_fd)
  show "length (get_lines fd ''input'' split) = length (get_lines fd ''output'' split)"
    using assms(2) l unfolding fd by (auto simp: get_lines_mk_fd)
qed

lemma same_line_count_iff:
  assumes "lockstep fd" and "split \<in> {''train'', ''dev'', ''test''}"
  shows "same_line_count (output_to_files fd) split
     \<longleftrightarrow> inner_line_feeds (get_lines fd ''input'' split)
           = inner_line_feeds (get_lines fd ''output'' split)"
  using written_files(3)[OF assms]
  by (simp add: same_line_count_def written_files(1,2)[OF assms] line_count_file_text)

text \<open>
  Claim C3, as the code has it. Every stage keeps the input list and the output list of
  each split equally long: the reformatter returns such lists, and a row of the merger
  (whichever of its four branches it takes) and the whole merger keep them so. The writer
  writes every entry of a list followed by a line feed, each list to its own file, so a
  file has as many lines as its list has entries and line feeds inside the entries. Hence
  the files \<open>split.input\<close> and \<open>split.output\<close> of a run have the same number of lines exactly
  when the entries of the two lists hold equally many line feeds of their own, and so
  whenever they hold none.
\<close>

theorem input_output_lockstep:
  "(reformat_data_mapp all_data langs = Inr mapp_data \<longrightarrow> lockstep mapp_data)
   \<and> (lockstep (fst st) \<and> ma_row lang split r st = Inr st' \<longrightarrow> lockstep (fst st'))
   \<and> (lockstep fd \<and> data_import_ma files fd hi_tr_dev = Inr fd' \<longrightarrow> lockstep fd')
   \<and> (main input_path_mapp input_path_ma input_path_hi_tr_dev = Inr written \<longrightarrow>
        (\<exists>data. lockstep data \<and> written = output_to_files data))
   \<and> (lockstep fd \<and> sp \<in> {''train'', ''dev'', ''test''} \<longrightarrow>
        map_of (output_to_files fd) (sp @ ''.input'')
          = Some (file_text (get_lines fd ''input'' sp))
        \<and> map_of (output_to_files fd) (sp @ ''.output'')
          = Some (file_text (get_lines fd ''output'' sp))
        \<and> length (get_lines fd ''input'' sp) = length (get_lines fd ''output'' sp)
        \<and> (same_line_count (output_to_files fd) sp
             \<longleftrightarrow> inner_line_feeds (get_lines fd ''input'' sp)
                   = inner_line_feeds (get_lines fd ''output'' sp)))
   \<and> line_count (file_text entries) = length entries + inner_line_feeds entries
   \<and> ((\<forall>line \<in> set entries. CHR 0x0A \<notin> set line) \<longrightarrow> inner_line_feeds entries = 0)"
proof -
  have run: "\<exists>data. lockstep data \<and> written = output_to_files data"
    if m: "main input_path_mapp input_path_ma input_path_hi_tr_dev = Inr written"
  proof -
    from m obtain raw ls md h data where
      "reformat_data_mapp raw ls = Inr md" and
      "data_import_ma input_path_ma md h = Inr data" and
      w: "written = output_to_files data"
      unfolding main_def by (auto split: sum.splits prod.splits)
    then have "lockstep data"
      using reformat_data_mapp_lockstep data_import_ma_lockstep by blast
    then show ?thesis using w by blast
  qed
  show ?thesis
    using reformat_data_mapp_lockstep[of all_data langs mapp_data]
      ma_row_lockstep[of st lang split r st']
      data_import_ma_lockstep[of fd files hi_tr_dev fd']
      run written_files[of fd sp] same_line_count_iff[of fd sp]
      line_count_file_text[of entries] inner_line_feeds_none[of entries]
    by blast
qed

theorem input_output_lockstep_witness:
  "reformat_data_mapp example_corpus [''de''] = Inr example_mapp_data
   \<and> lockstep example_mapp_data
   \<and> ma_row ''tr'' ''test'' example_row (example_mapp_data, example_hi_tr_dev)
       = Inr (example_after_row, example_hi_tr_dev)
   \<and> lockstep example_after_row
   \<and> data_import_ma example_ma_dir example_mapp_data example_hi_tr_dev = Inr example_data
   \<and> lockstep example_data
   \<and> main example_mapp_dir example_ma_dir example_dev_dir = Inr (output_to_files example_data)
   \<and> inner_line_feeds (get_lines example_data ''input'' ''test'') = 0
   \<and> inner_line_feeds (get_lines example_data ''output'' ''test'') = 0
   \<and> same_line_count (output_to_files example_data) ''test''
   \<and> line_count (file_text (get_lines example_data ''input'' ''test'')) = 4
   \<and> map_of (output_to_files example_data) ''test.output''
       = Some (file_text (get_lines example_data ''output'' ''test''))
   \<and> line_count (file_text (get_lines example_data ''output'' ''test'')) = 4"
proof -
  have r: "reformat_data_mapp example_corpus [''de''] = Inr example_mapp_data"
    by code_simp
  have row: "ma_row ''tr'' ''test'' example_row (example_mapp_data, example_hi_tr_dev)
      = Inr (example_after_row, example_hi_tr_dev)"
    by code_simp
  have m: "data_import_ma example_ma_dir example_mapp_data example_hi_tr_dev = Inr example_data"
    by code_simp
  have run: "main example_mapp_dir example_ma_dir example_dev_dir
      = Inr (output_to_files example_data)"
    by code_simp
  have sp: "''test'' \<in> {''train'', ''dev'', ''test''}" by simp
  have n1: "length (get_lines example_data ''input'' ''test'') = 4" by code_simp
  have n2: "length (get_lines example_data ''output'' ''test'') = 4" by code_simp
  have f1: "\<forall>line \<in> set (get_lines example_data ''input'' ''test''). CHR 0x0A \<notin> set line"
    by code_simp
  have f2: "\<forall>line \<in> set (get_lines example_data ''output'' ''test''). CHR 0x0A \<notin> set line"
    by code_simp
  note t1 = input_output_lockstep[of example_corpus "[''de'']" example_mapp_data
      "(example_mapp_data, example_hi_tr_dev)" "''tr''" "''test''" example_row
      "(example_after_row, example_hi_tr_dev)"
      example_mapp_data example_ma_dir example_hi_tr_dev example_data
      example_mapp_dir example_ma_dir example_dev_dir "output_to_files example_data"
      "''test''" "get_lines example_data ''input'' ''test''"]
  note t2 = input_output_lockstep[of example_corpus "[''de'']" example_mapp_data
      "(example_mapp_data, example_hi_tr_dev)" "''tr''" "''test''" example_row
      "(example_after_row, example_hi_tr_dev)"
      example_data example_ma_dir example_hi_tr_dev example_data
      example_mapp_dir example_ma_dir example_dev_dir "output_to_files example_data"
      "''test''" "get_lines example_data ''output'' ''test''"]
  have l1: "lockstep example_mapp_data" using t1 r by blast
  then have l1': "lockstep (fst (example_mapp_data, example_hi_tr_dev))" by simp
  have "lockstep (fst (example_after_row, example_hi_tr_dev))" using t1 l1' row by blast
  then have l3: "lockstep example_after_row" by simp
  have l2: "lockstep example_data" using t1 l1 m by blast
  have i1: "inner_line_feeds (get_lines example_data ''input'' ''test'') = 0"
    using t1 f1 by blast
  have i2: "inner_line_feeds (get_lines example_data ''output'' ''test'') = 0"
    using t2 f2 by blast
  have c1: "line_count (file_text (get_lines example_data ''input'' ''test'')) = 4"
    using t1 i1 n1 by simp
  have c2: "line_count (file_text (get_lines example_data ''output'' ''test'')) = 4"
    using t2 i2 n2 by simp
  have o: "map_of (output_to_files example_data) ''test.output''
       = Some (file_text (get_lines example_data ''output'' ''test''))"
    using t2 l2 sp by simp
  have s: "same_line_count (output_to_files example_data) ''test''"
    using t2 l2 sp i1 i2 by simp
  show ?thesis using r l1 row l3 m l2 run i1 i2 s c1 o c2 by simp
qed

text \<open>
  Claim C3, as the specification words it, fails: when the utterance of a row holds a
  line feed, the file \<open>test.input\<close> of the run has five lines and \<open>test.output\<close> has four.
\<close>

theorem line_counts_differ_counterexample:
  "main example_mapp_dir example_lf_ma_dir example_dev_dir = Inr (output_to_files example_lf_data)
   \<and> map_of (output_to_files example_lf_data) ''test.input''
       = Some (file_text (get_lines example_lf_data ''input'' ''test''))
   \<and> line_count (file_text (get_lines example_lf_data ''input'' ''test'')) = 5
   \<and> map_of (output_to_files example_lf_data) ''test.output''
       = Some (file_text (get_lines example_lf_data ''output'' ''test''))
   \<and> line_count (file_text (get_lines example_lf_data ''output'' ''test'')) = 4
   \<and> \<not> same_line_count (output_to_files example_lf_data) ''test''"
  by code_simp

section \<open>Dev entries are consumed once\<close>

lemma map_of_dict_set:
  "map_of (dict_set k v d) k' = (if k' = k then Some v else map_of d k')"
  by (induction d) auto

lemma dict_get_dict_set:
  "dict_get k' (dict_set k v d) = (if k' = k then Inr v else dict_get k' d)"
  by (simp add: dict_get_def map_of_dict_set)

lemma count_list_remove1:
  "count_list (remove1 x xs) s = count_list xs s - (if x = s \<and> x \<in> set xs then 1 else 0)"
  by (induction xs) auto

lemma count_list_0_iff: "count_list xs s = 0 \<longleftrightarrow> s \<notin> set xs"
  by (induction xs) auto

lemma ma_row_dev:
  assumes "ma_row lang split r st = Inr st'" and "dict_get lang (snd st) = Inr dev"
  shows "5 < length r"
    and "takes_dev_branch lang r st \<Longrightarrow> snd st' = dict_set lang (remove1 (r ! 4) dev) (snd st)"
    and "\<not> takes_dev_branch lang r st \<Longrightarrow> snd st' = snd st"
    and "takes_dev_branch lang r st \<longleftrightarrow> r ! 4 \<in> set dev"
  using assms unfolding ma_row_def takes_dev_branch_def Let_def col_def
  by (auto split: sum.splits if_splits)

lemma ma_row_step:
  assumes ok: "ma_row lang split r st = Inr st'" and dev: "dict_get lang (snd st) = Inr dev"
  shows "\<exists>dev'. dict_get lang (snd st') = Inr dev'
           \<and> (if col r 4 = Inr s \<and> takes_dev_branch lang r st then 1 else 0) + count_list dev' s
               = count_list dev s"
proof (cases "takes_dev_branch lang r st")
  case True
  have len: "5 < length r" using ok dev by (rule ma_row_dev(1))
  have mem: "r ! 4 \<in> set dev" using ma_row_dev(4)[OF ok dev] True by simp
  have "snd st' = dict_set lang (remove1 (r ! 4) dev) (snd st)"
    using ok dev True by (rule ma_row_dev(2))
  then have g: "dict_get lang (snd st') = Inr (remove1 (r ! 4) dev)"
    by (simp add: dict_get_dict_set)
  have "0 < count_list dev (r ! 4)" using mem count_list_0_iff[of dev "r ! 4"] by auto
  then show ?thesis using g len mem True
    by (auto simp: count_list_remove1 col_def)
next
  case False
  have "snd st' = snd st" using ok dev False by (rule ma_row_dev(3))
  then show ?thesis using dev False by simp
qed

lemma ma_row_other:
  assumes "ma_row l split r st = Inr st'" and "l \<noteq> lang"
  shows "dict_get lang (snd st') = dict_get lang (snd st)"
  using assms unfolding ma_row_def Let_def
  by (auto simp: dict_get_dict_set split: sum.splits if_splits)

lemma ma_rows_other:
  "ma_rows l split rs st = Inr st' \<Longrightarrow> l \<noteq> lang \<Longrightarrow>
   dict_get lang (snd st') = dict_get lang (snd st)"
proof (induction rs arbitrary: st)
  case Nil
  then show ?case by simp
next
  case (Cons r rs)
  then show ?case by (auto split: sum.splits dest: ma_row_other)
qed

lemma dev_routed_rows_count:
  assumes "dict_get lang (snd st) = Inr dev"
  shows "dev_routed_rows lang split s rs st \<le> count_list dev s
     \<and> (\<forall>st'. ma_rows lang split rs st = Inr st' \<longrightarrow>
          (\<exists>dev'. dict_get lang (snd st') = Inr dev'
             \<and> dev_routed_rows lang split s rs st + count_list dev' s = count_list dev s))"
  using assms
proof (induction rs arbitrary: st dev)
  case Nil
  then show ?case by simp
next
  case (Cons r rs)
  show ?case
  proof (cases "ma_row lang split r st")
    case (Inl e)
    then show ?thesis by simp
  next
    case (Inr st1)
    from ma_row_step[OF Inr Cons.prems, of s] obtain dev1
      where d1: "dict_get lang (snd st1) = Inr dev1"
        and c1: "(if col r 4 = Inr s \<and> takes_dev_branch lang r st then 1 else 0)
                   + count_list dev1 s = count_list dev s"
      by blast
    from Cons.IH[OF d1] have
      le: "dev_routed_rows lang split s rs st1 \<le> count_list dev1 s" and
      eq: "\<And>st'. ma_rows lang split rs st1 = Inr st' \<Longrightarrow>
          (\<exists>dev'. dict_get lang (snd st') = Inr dev'
             \<and> dev_routed_rows lang split s rs st1 + count_list dev' s = count_list dev1 s)"
      by blast+
    have one: "dev_routed_rows lang split s (r # rs) st
        = (if col r 4 = Inr s \<and> takes_dev_branch lang r st then 1 else 0)
            + dev_routed_rows lang split s rs st1"
      using Inr by simp
    have p1: "dev_routed_rows lang split s (r # rs) st \<le> count_list dev s"
      using one le c1 by linarith
    have p2: "\<exists>dev'. dict_get lang (snd st') = Inr dev'
             \<and> dev_routed_rows lang split s (r # rs) st + count_list dev' s = count_list dev s"
      if run: "ma_rows lang split (r # rs) st = Inr st'" for st'
    proof -
      from run Inr have "ma_rows lang split rs st1 = Inr st'" by simp
      from eq[OF this] obtain dev' where "dict_get lang (snd st') = Inr dev'"
        and "dev_routed_rows lang split s rs st1 + count_list dev' s = count_list dev1 s"
        by blast
      then show ?thesis using one c1 by auto
    qed
    show ?thesis using p1 p2 by blast
  qed
qed

lemma dev_routed_file_count:
  assumes "dict_get lang (snd st) = Inr dev"
  shows "dev_routed_file lang s f st \<le> count_list dev s
     \<and> (\<forall>st'. ma_file f st = Inr st' \<longrightarrow>
          (\<exists>dev'. dict_get lang (snd st') = Inr dev'
             \<and> dev_routed_file lang s f st + count_list dev' s = count_list dev s))"
proof (cases "fst f = []")
  case True
  then show ?thesis using assms by (simp add: dev_routed_file_def ma_file_def)
next
  case False
  show ?thesis
  proof (cases "parse_ma_name (fst f)")
    case (Inl e)
    then show ?thesis using False by (simp add: dev_routed_file_def ma_file_def)
  next
    case (Inr p)
    obtain l split where p: "p = (l, split)" by (cases p)
    show ?thesis
    proof (cases "l = lang")
      case True
      then show ?thesis
        using False Inr p dev_routed_rows_count[OF assms, of split s "snd f"]
        by (simp add: dev_routed_file_def ma_file_def)
    next
      case ne: False
      then show ?thesis
        using False Inr p assms ma_rows_other[of l split "snd f" st _ lang]
        by (auto simp: dev_routed_file_def ma_file_def)
    qed
  qed
qed

lemma dev_routed_count:
  assumes "dict_get lang (snd st) = Inr dev"
  shows "dev_routed lang s fs st \<le> count_list dev s
     \<and> (\<forall>st'. ma_files fs st = Inr st' \<longrightarrow>
          (\<exists>dev'. dict_get lang (snd st') = Inr dev'
             \<and> dev_routed lang s fs st + count_list dev' s = count_list dev s))"
  using assms
proof (induction fs arbitrary: st dev)
  case Nil
  then show ?case by simp
next
  case (Cons f fs)
  note one_file = dev_routed_file_count[OF Cons.prems, of s f]
  show ?case
  proof (cases "ma_file f st")
    case (Inl e)
    then show ?thesis using one_file by simp
  next
    case (Inr st1)
    with one_file obtain dev1 where d1: "dict_get lang (snd st1) = Inr dev1"
      and c1: "dev_routed_file lang s f st + count_list dev1 s = count_list dev s"
      by blast
    from Cons.IH[OF d1] have
      le: "dev_routed lang s fs st1 \<le> count_list dev1 s" and
      eq: "\<And>st'. ma_files fs st1 = Inr st' \<Longrightarrow>
          (\<exists>dev'. dict_get lang (snd st') = Inr dev'
             \<and> dev_routed lang s fs st1 + count_list dev' s = count_list dev1 s)"
      by blast+
    have one: "dev_routed lang s (f # fs) st
        = dev_routed_file lang s f st + dev_routed lang s fs st1"
      using Inr by simp
    have p1: "dev_routed lang s (f # fs) st \<le> count_list dev s"
      using one le c1 by linarith
    have p2: "\<exists>dev'. dict_get lang (snd st') = Inr dev'
             \<and> dev_routed lang s (f # fs) st + count_list dev' s = count_list dev s"
      if run: "ma_files (f # fs) st = Inr st'" for st'
    proof -
      from run Inr have "ma_files fs st1 = Inr st'" by simp
      from eq[OF this] obtain dev' where "dict_get lang (snd st') = Inr dev'"
        and "dev_routed lang s fs st1 + count_list dev' s = count_list dev1 s"
        by blast
      then show ?thesis using one c1 by auto
    qed
    show ?thesis using p1 p2 by blast
  qed
qed

lemma ma_row_absent:
  assumes "5 < length r" and "dict_get lang h = Inr dev" and "r ! 4 \<notin> set dev"
  shows "ma_row lang split r (fd, h)
     = (case ma_fallthrough lang split (r ! 4)
               (format_ma lang (clean_intent (r ! 3)) (r ! 4) (r ! 5)) fd of
          Inl e \<Rightarrow> Inl e | Inr fd' \<Rightarrow> Inr (fd', h))"
  using assms by (simp add: ma_row_def col_def Let_def split: sum.splits)

text \<open>
  Claim C1. Let the dev list of a language hold the utterance \<open>s\<close> exactly \<open>N\<close> times when
  the merger starts. Then at most \<open>N\<close> rows of that language with utterance \<open>s\<close> take the
  dev branch; when the merger returns, the rows that took it and the entries of \<open>s\<close> left
  in the list add up to \<open>N\<close> (each routing removes one entry); and in a state whose list
  holds no \<open>s\<close>, a row with utterance \<open>s\<close> does not take the dev branch and is handled by
  the rule for oversampled train rows and own-split rows.
\<close>

theorem dev_entries_consumed_once:
  assumes "dict_get lang hi_tr_dev = Inr dev"
  shows "dev_routed lang s files (fd, hi_tr_dev) \<le> count_list dev s
     \<and> (ma_files files (fd, hi_tr_dev) = Inr (fd', hi_tr_dev') \<longrightarrow>
          (\<exists>dev'. dict_get lang hi_tr_dev' = Inr dev'
             \<and> dev_routed lang s files (fd, hi_tr_dev) + count_list dev' s = count_list dev s))
     \<and> (count_list dev s = 0 \<and> 5 < length r \<and> r ! 4 = s \<longrightarrow>
          \<not> takes_dev_branch lang r (fd, hi_tr_dev)
          \<and> ma_row lang split r (fd, hi_tr_dev)
             = (case ma_fallthrough lang split s
                       (format_ma lang (clean_intent (r ! 3)) s (r ! 5)) fd of
                  Inl e \<Rightarrow> Inl e | Inr fd1 \<Rightarrow> Inr (fd1, hi_tr_dev)))"
proof -
  have st: "dict_get lang (snd (fd, hi_tr_dev)) = Inr dev" using assms by simp
  note c = dev_routed_count[OF st, of s files]
  have p3: "\<not> takes_dev_branch lang r (fd, hi_tr_dev)
          \<and> ma_row lang split r (fd, hi_tr_dev)
             = (case ma_fallthrough lang split s
                       (format_ma lang (clean_intent (r ! 3)) s (r ! 5)) fd of
                  Inl e \<Rightarrow> Inl e | Inr fd1 \<Rightarrow> Inr (fd1, hi_tr_dev))"
    if "count_list dev s = 0" and len: "5 < length r" and s: "r ! 4 = s"
  proof -
    from that have nm: "r ! 4 \<notin> set dev" by (simp add: count_list_0_iff)
    have "\<not> takes_dev_branch lang r (fd, hi_tr_dev)"
      using nm len assms by (simp add: takes_dev_branch_def col_def)
    then show ?thesis using ma_row_absent[OF len assms nm, of split fd] s by simp
  qed
  show ?thesis using c p3 by auto
qed

theorem dev_entries_consumed_once_witness:
  "dict_get ''hi'' example_hi_tr_dev = Inr [''dilli se'']
   \<and> dev_routed ''hi'' ''dilli se'' example_ma_dir (final_data_init, example_hi_tr_dev) = 1
   \<and> count_list [''dilli se''] ''dilli se'' = 1
   \<and> map_sum id snd (ma_files example_ma_dir (final_data_init, example_hi_tr_dev))
       = Inr hi_tr_dev_init
   \<and> dict_get ''hi'' hi_tr_dev_init = Inr []
   \<and> \<not> takes_dev_branch ''hi'' example_row (example_fd, hi_tr_dev_init)
   \<and> ma_row ''hi'' ''train'' example_row (example_fd, hi_tr_dev_init)
      = Inr (mk_fd [''dilli se'', ''dilli se'', ''dilli se''] [''dilli se''] []
               [''dilli <B-fromloc> <intent-flight> <lang-hi>'',
                ''dilli <B-fromloc> <intent-flight> <lang-hi>'',
                ''dilli <B-fromloc> <intent-flight> <lang-hi>'']
               [''dilli <B-fromloc> <intent-flight> <lang-hi>''] [],
             hi_tr_dev_init)"
proof -
  have d: "dict_get ''hi'' example_hi_tr_dev = Inr [''dilli se'']"
    by code_simp
  have d0: "dict_get ''hi'' hi_tr_dev_init = Inr []"
    by code_simp
  have n: "dev_routed ''hi'' ''dilli se'' example_ma_dir (final_data_init, example_hi_tr_dev) = 1"
    by code_simp
  have run: "map_sum id snd (ma_files example_ma_dir (final_data_init, example_hi_tr_dev))
       = Inr hi_tr_dev_init"
    by code_simp
  have c1: "count_list [''dilli se''] ''dilli se'' = 1"
    by code_simp
  have c0: "count_list [] ''dilli se'' = 0 \<and> 5 < length example_row \<and> example_row ! 4 = ''dilli se''"
    by code_simp
  have ft: "(case ma_fallthrough ''hi'' ''train'' ''dilli se''
                       (format_ma ''hi'' (clean_intent (example_row ! 3)) ''dilli se'' (example_row ! 5))
                       example_fd of
                  Inl e \<Rightarrow> Inl e | Inr fd1 \<Rightarrow> Inr (fd1, hi_tr_dev_init))
     = Inr (mk_fd [''dilli se'', ''dilli se'', ''dilli se''] [''dilli se''] []
               [''dilli <B-fromloc> <intent-flight> <lang-hi>'',
                ''dilli <B-fromloc> <intent-flight> <lang-hi>'',
                ''dilli <B-fromloc> <intent-flight> <lang-hi>'']
               [''dilli <B-fromloc> <intent-flight> <lang-hi>''] [],
             hi_tr_dev_init)"
    by code_simp
  show ?thesis
    using dev_entries_consumed_once[OF d, of "''dilli se''" example_ma_dir final_data_init]
      dev_entries_consumed_once[OF d0, of "''dilli se''" "[]" example_fd
         _ _ example_row "''train''"]
      d d0 n run c0 c1
    unfolding ft by simp
qed

section \<open>Oversampling of train rows\<close>

lemma oversample:
  assumes "5 < length r" and "dict_get lang h = Inr dev" and "r ! 4 \<notin> set dev"
    and "lang = ''hi'' \<and> n = 3 \<or> lang = ''tr'' \<and> n = 7"
  shows "ma_row lang ''train'' r (mk_fd t1 d1 e1 t2 d2 e2, h)
     = Inr (mk_fd (t1 @ replicate n (r ! 4)) d1 e1
              (t2 @ replicate n (format_ma lang (clean_intent (r ! 3)) (r ! 4) (r ! 5))) d2 e2, h)"
  using assms(4) unfolding ma_row_absent[OF assms(1-3)] ma_fallthrough_def
  by (auto simp: add_copies_train)

text \<open>
  Claim C2. A row of a Hindi train file whose utterance is not in what is left of the
  Hindi dev list adds exactly three copies of its utterance to the train input list and
  three copies of its output line to the train output list, and changes nothing else; for
  Turkish it is seven copies.
\<close>

theorem train_oversampling:
  assumes "5 < length r" and "dict_get lang hi_tr_dev = Inr dev" and "r ! 4 \<notin> set dev"
  shows "(lang = ''hi'' \<longrightarrow>
       ma_row lang ''train'' r (mk_fd t1 d1 e1 t2 d2 e2, hi_tr_dev)
         = Inr (mk_fd (t1 @ replicate 3 (r ! 4)) d1 e1
              (t2 @ replicate 3 (format_ma lang (clean_intent (r ! 3)) (r ! 4) (r ! 5))) d2 e2,
              hi_tr_dev))
     \<and> (lang = ''tr'' \<longrightarrow>
       ma_row lang ''train'' r (mk_fd t1 d1 e1 t2 d2 e2, hi_tr_dev)
         = Inr (mk_fd (t1 @ replicate 7 (r ! 4)) d1 e1
              (t2 @ replicate 7 (format_ma lang (clean_intent (r ! 3)) (r ! 4) (r ! 5))) d2 e2,
              hi_tr_dev))"
  using oversample[OF assms, of 3 t1 d1 e1 t2 d2 e2] oversample[OF assms, of 7 t1 d1 e1 t2 d2 e2]
  by simp

theorem train_oversampling_witness:
  "parse_ma_name ''Hindi-train_600.tsv'' = Inr (''hi'', ''train'')
   \<and> ma_row ''hi'' ''train'' example_row (mk_fd [''a''] [] [] [''b''] [] [], hi_tr_dev_init)
       = Inr (mk_fd [''a'', ''dilli se'', ''dilli se'', ''dilli se''] [] []
                [''b'', ''dilli <B-fromloc> <intent-flight> <lang-hi>'',
                 ''dilli <B-fromloc> <intent-flight> <lang-hi>'',
                 ''dilli <B-fromloc> <intent-flight> <lang-hi>''] [] [], hi_tr_dev_init)
   \<and> parse_ma_name ''Turkish-train_600.tsv'' = Inr (''tr'', ''train'')
   \<and> ma_row ''tr'' ''train'' example_row (mk_fd [] [] [] [] [] [], hi_tr_dev_init)
       = Inr (mk_fd (replicate 7 ''dilli se'') [] []
                (replicate 7 ''dilli <B-fromloc> <intent-flight> <lang-tr>'') [] [], hi_tr_dev_init)"
proof -
  have len: "5 < length example_row" by (simp add: example_row_def)
  have hi: "dict_get ''hi'' hi_tr_dev_init = Inr []" by (simp add: dict_get_def hi_tr_dev_init_def)
  have tr: "dict_get ''tr'' hi_tr_dev_init = Inr []" by (simp add: dict_get_def hi_tr_dev_init_def)
  have absent: "example_row ! 4 \<notin> set []" by simp
  have n1: "parse_ma_name ''Hindi-train_600.tsv'' = Inr (''hi'', ''train'')" by code_simp
  have n2: "parse_ma_name ''Turkish-train_600.tsv'' = Inr (''tr'', ''train'')" by code_simp
  have f1: "format_ma ''hi'' (clean_intent (example_row ! 3)) ''dilli se'' (example_row ! 5)
      = ''dilli <B-fromloc> <intent-flight> <lang-hi>''" by code_simp
  have f2: "format_ma ''tr'' (clean_intent (example_row ! 3)) ''dilli se'' (example_row ! 5)
      = ''dilli <B-fromloc> <intent-flight> <lang-tr>''" by code_simp
  have u: "example_row ! 4 = ''dilli se''" by code_simp
  have r3: "replicate 3 x = [x, x, x]" for x :: string by (simp add: numeral_3_eq_3)
  show ?thesis
    using train_oversampling[OF len hi absent, of "[''a'']" "[]" "[]" "[''b'']" "[]" "[]"]
      train_oversampling[OF len tr absent, of "[]" "[]" "[]" "[]" "[]" "[]"]
      n1 n2
    by (simp add: r3 u f1 f2)
qed

section \<open>Malformed input of the loader\<close>

lemma mapp_row_bad: "bad_row r \<Longrightarrow> \<exists>e. mapp_row r d = Inl e"
  unfolding bad_row_def mapp_row_def col_def
  by (cases "py_int (r ! 0)") auto

lemma mapp_rows_bad: "list_ex bad_row rows \<Longrightarrow> \<exists>e. mapp_rows rows d = Inl e"
proof (induction rows arbitrary: d)
  case Nil
  then show ?case by simp
next
  case (Cons r rows)
  show ?case
  proof (cases "mapp_row r d")
    case (Inl e)
    then show ?thesis by simp
  next
    case (Inr d1)
    with mapp_row_bad[of r d] have "\<not> bad_row r" by auto
    with Cons.prems have "list_ex bad_row rows" by simp
    from Cons.IH[OF this, of d1] show ?thesis using Inr by simp
  qed
qed

lemma parse_mapp_name_ok:
  assumes "parse_mapp_name n = Inr p"
  shows "length (split_on CHR ''_'' n) = 2
     \<and> length (split_on CHR ''.'' (split_on CHR ''_'' n ! 1)) = 2"
  using assms unfolding parse_mapp_name_def
  by (auto split: list.splits)

lemma mapp_file_malformed:
  assumes "fst f \<noteq> []" and "malformed f"
  shows "\<exists>e. mapp_file f all_data = Inl e"
proof (cases "parse_mapp_name (fst f)")
  case (Inl e)
  then show ?thesis using assms(1) by (simp add: mapp_file_def)
next
  case (Inr p)
  from parse_mapp_name_ok[OF Inr] assms(2) have bad: "list_ex bad_row (tl (snd f))"
    by (simp add: malformed_def)
  then obtain header rows where rows: "snd f = header # rows" and "list_ex bad_row rows"
    by (cases "snd f") auto
  then have "\<exists>e. mapp_rows rows d = Inl e" for d by (simp add: mapp_rows_bad)
  then have nr: "mapp_rows rows d \<noteq> Inr d'" for d d' by (metis sum.distinct(1))
  show ?thesis
    using assms(1) Inr rows unfolding mapp_file_def Let_def
    by (auto simp: nr split: sum.splits prod.splits)
qed

lemma mapp_files_malformed:
  assumes "f \<in> set files" and "fst f \<noteq> []" and "malformed f"
  shows "\<exists>e. mapp_files files all_data = Inl e"
  using assms(1)
proof (induction files arbitrary: all_data)
  case Nil
  then show ?case by simp
next
  case (Cons g files)
  show ?case
  proof (cases "mapp_file g all_data")
    case (Inl e)
    then show ?thesis by simp
  next
    case (Inr ad)
    with mapp_file_malformed[OF assms(2,3), of all_data] have "g \<noteq> f" by auto
    with Cons.prems have "f \<in> set files" by simp
    from Cons.IH[OF this, of ad] show ?thesis using Inr by simp
  qed
qed

text \<open>
  Claim C7. If a file of the MultiATIS++ directory is malformed (its name does not split
  into two parts at \<open>_\<close>, or the second part not into two parts at \<open>.\<close>, or a data row has
  fewer than four columns or a first column that is no integer), the loader returns an
  error and no table. The name is not empty, as no name of a directory listing is: line
  58 would skip an empty name.
\<close>

theorem malformed_input_fails:
  assumes "f \<in> set files" and "fst f \<noteq> []" and "malformed f"
  shows "\<exists>e. data_import_mapp files = Inl e"
  using mapp_files_malformed[OF assms, of "[]"] unfolding data_import_mapp_def by auto

theorem malformed_input_fails_witness:
  "malformed (example_bad_names ! 1) \<and> data_import_mapp example_bad_names = Inl ValueError
   \<and> malformed (example_short_row ! 0) \<and> data_import_mapp example_short_row = Inl IndexError
   \<and> malformed (example_bad_id ! 0) \<and> data_import_mapp example_bad_id = Inl ValueError
   \<and> (\<exists>e. data_import_mapp example_bad_names = Inl e)"
proof -
  have m1: "example_bad_names ! 1 \<in> set example_bad_names \<and> fst (example_bad_names ! 1) \<noteq> []
      \<and> malformed (example_bad_names ! 1)"
    by code_simp
  have m2: "malformed (example_short_row ! 0)" by code_simp
  have m3: "malformed (example_bad_id ! 0)" by code_simp
  have e1: "data_import_mapp example_bad_names = Inl ValueError" by code_simp
  have e2: "data_import_mapp example_short_row = Inl IndexError" by code_simp
  have e3: "data_import_mapp example_bad_id = Inl ValueError" by code_simp
  show ?thesis
    using malformed_input_fails[of "example_bad_names ! 1" example_bad_names] m1 m2 m3 e1 e2 e3
    by simp
qed

section \<open>Languages the dev loader does not know\<close>

lemma map_fst_dict_set:
  "map_of d k = Some v0 \<Longrightarrow> map fst (dict_set k v d) = map fst d"
  by (induction d) (auto split: if_splits)

lemma dev_row_keys:
  "dev_row lang r h = Inr h' \<Longrightarrow> map fst h' = map fst h"
  unfolding dev_row_def dict_get_def
  by (auto split: sum.splits option.splits simp: map_fst_dict_set)

lemma dev_rows_keys:
  "dev_rows lang rs h = Inr h' \<Longrightarrow> map fst h' = map fst h"
proof (induction rs arbitrary: h)
  case Nil
  then show ?case by simp
next
  case (Cons r rs)
  then show ?case by (auto split: sum.splits dest: dev_row_keys)
qed

lemma dev_file_keys:
  "dev_file f h = Inr h' \<Longrightarrow> map fst h' = map fst h"
  unfolding dev_file_def
  by (auto split: if_splits list.splits sum.splits prod.splits dest: dev_rows_keys)

lemma dev_files_keys:
  "dev_files fs h = Inr h' \<Longrightarrow> map fst h' = map fst h"
proof (induction fs arbitrary: h)
  case Nil
  then show ?case by simp
next
  case (Cons f fs)
  then show ?case by (auto split: sum.splits dest: dev_file_keys)
qed

lemma dev_files_append:
  "dev_files (fs @ gs) h = (case dev_files fs h of Inl e \<Rightarrow> Inl e | Inr h' \<Rightarrow> dev_files gs h')"
  by (induction fs arbitrary: h) (auto split: sum.splits)

lemma dict_get_missing:
  "k \<notin> set (map fst d) \<Longrightarrow> dict_get k d = Inl KeyError"
  unfolding dict_get_def by (simp add: map_of_eq_None_iff split: option.splits)

lemma dev_file_other_lang:
  assumes "name \<noteq> []" and "parse_mapp_name name = Inr (split, lang)"
    and "lang \<noteq> ''hi''" and "lang \<noteq> ''tr''" and "map fst h = [''hi'', ''tr'']"
  shows "dev_file (name, header # r # rs) h = Inl KeyError"
proof -
  have "dict_get lang h = Inl KeyError" using assms(3-5) by (intro dict_get_missing) simp
  then show ?thesis using assms(1,2) by (simp add: dev_file_def dev_row_def)
qed

text \<open>
  Claim C9. The dev loader starts with exactly the keys \<open>hi\<close> and \<open>tr\<close> and never adds a
  key. A file with at least one data row whose name gives another language (after
  lowercasing) raises KeyError at its first row when the files before it were read
  without error, and in every case the loader returns an error.
\<close>

theorem other_language_key_error:
  assumes "name \<noteq> []" and "parse_mapp_name name = Inr (split, lang)"
    and "lang \<noteq> ''hi''" and "lang \<noteq> ''tr''"
  shows "map fst hi_tr_dev_init = [''hi'', ''tr'']
     \<and> (dev_files before hi_tr_dev_init = Inr h \<longrightarrow>
          map fst h = [''hi'', ''tr'']
          \<and> dev_file (name, header # r # rs) h = Inl KeyError
          \<and> get_hi_tr_dev_mapp (before @ (name, header # r # rs) # after) = Inl KeyError)
     \<and> (\<exists>e. get_hi_tr_dev_mapp (before @ (name, header # r # rs) # after) = Inl e)"
proof -
  have init: "map fst hi_tr_dev_init = [''hi'', ''tr'']" by (simp add: hi_tr_dev_init_def)
  have ok: "map fst h = [''hi'', ''tr'']
          \<and> dev_file (name, header # r # rs) h = Inl KeyError
          \<and> get_hi_tr_dev_mapp (before @ (name, header # r # rs) # after) = Inl KeyError"
    if b: "dev_files before hi_tr_dev_init = Inr h" for h
  proof -
    from dev_files_keys[OF b] init have k: "map fst h = [''hi'', ''tr'']" by simp
    from dev_file_other_lang[OF assms k] have "dev_file (name, header # r # rs) h = Inl KeyError" .
    then show ?thesis using k b by (simp add: get_hi_tr_dev_mapp_def dev_files_append)
  qed
  have "\<exists>e. get_hi_tr_dev_mapp (before @ (name, header # r # rs) # after) = Inl e"
  proof (cases "dev_files before hi_tr_dev_init")
    case (Inl e)
    then show ?thesis by (simp add: get_hi_tr_dev_mapp_def dev_files_append)
  next
    case (Inr h)
    from ok[OF this] show ?thesis by blast
  qed
  then show ?thesis using init ok by blast
qed

theorem other_language_key_error_witness:
  "parse_mapp_name ''dev_DE.tsv'' = Inr (''dev'', ''de'')
   \<and> dev_files example_dev_dir hi_tr_dev_init = Inr example_hi_tr_dev
   \<and> get_hi_tr_dev_mapp (example_dev_dir @
        [(''dev_DE.tsv'', [[''id'', ''utterance'', ''slot_labels'', ''intent''],
                           [''1'', ''Nach Rom'', ''O B-toloc'', ''atis_flight'']])])
       = Inl KeyError"
proof -
  have p: "parse_mapp_name ''dev_DE.tsv'' = Inr (''dev'', ''de'')" by code_simp
  have b: "dev_files example_dev_dir hi_tr_dev_init = Inr example_hi_tr_dev" by code_simp
  have n: "''dev_DE.tsv'' \<noteq> []" "''de'' \<noteq> ''hi''" "''de'' \<noteq> ''tr''" by simp_all
  show ?thesis
    using other_language_key_error[OF n(1) p n(2,3), of example_dev_dir example_hi_tr_dev
        "[''id'', ''utterance'', ''slot_labels'', ''intent'']"
        "[''1'', ''Nach Rom'', ''O B-toloc'', ''atis_flight'']" "[]" "[]"] p b
    by simp
qed

section \<open>Rows with the same id\<close>

lemma fst_set_dict_set: "fst ` set (dict_set k v d) = insert k (fst ` set d)"
  by (induction d) auto

lemma distinct_dict_set: "distinct (map fst d) \<Longrightarrow> distinct (map fst (dict_set k v d))"
  by (induction d) (auto simp add: fst_set_dict_set simp del: image_iff)

lemma mapp_row_ok:
  assumes "mapp_row r d = Inr d1"
  obtains k where "py_int (r ! 0) = Inr k"
    and "d1 = dict_set k (r ! 1, r ! 2, clean_intent (r ! 3)) d"
  using assms unfolding mapp_row_def col_def
  by (auto split: sum.splits if_splits)

lemma mapp_rows_append:
  "mapp_rows (rs @ ss) d = (case mapp_rows rs d of Inl e \<Rightarrow> Inl e | Inr d1 \<Rightarrow> mapp_rows ss d1)"
  by (induction rs arbitrary: d) (auto split: sum.splits)

lemma mapp_rows_keys:
  "mapp_rows rows d = Inr d' \<Longrightarrow>
     set (map fst d') = set (map fst d) \<union> {k. \<exists>r \<in> set rows. py_int (r ! 0) = Inr k}"
proof (induction rows arbitrary: d)
  case Nil
  then show ?case by simp
next
  case (Cons r rows)
  from Cons.prems obtain d1 where r: "mapp_row r d = Inr d1" and rest: "mapp_rows rows d1 = Inr d'"
    by (auto split: sum.splits)
  from r obtain k where k: "py_int (r ! 0) = Inr k"
    and d1: "d1 = dict_set k (r ! 1, r ! 2, clean_intent (r ! 3)) d"
    by (rule mapp_row_ok)
  show ?case using Cons.IH[OF rest] k unfolding d1 by (auto simp: fst_set_dict_set)
qed

lemma mapp_rows_distinct:
  "mapp_rows rows d = Inr d' \<Longrightarrow> distinct (map fst d) \<Longrightarrow> distinct (map fst d')"
proof (induction rows arbitrary: d)
  case Nil
  then show ?case by simp
next
  case (Cons r rows)
  from Cons.prems obtain d1 where r: "mapp_row r d = Inr d1" and rest: "mapp_rows rows d1 = Inr d'"
    by (auto split: sum.splits)
  from r Cons.prems(2) have "distinct (map fst d1)"
    by (auto elim!: mapp_row_ok simp: distinct_dict_set)
  with Cons.IH[OF rest] show ?case .
qed

lemma mapp_rows_untouched:
  "mapp_rows rows d = Inr d' \<Longrightarrow> \<forall>r \<in> set rows. py_int (r ! 0) \<noteq> Inr k \<Longrightarrow>
   map_of d' k = map_of d k"
proof (induction rows arbitrary: d)
  case Nil
  then show ?case by simp
next
  case (Cons r rows)
  from Cons.prems obtain d1 where r: "mapp_row r d = Inr d1" and rest: "mapp_rows rows d1 = Inr d'"
    by (auto split: sum.splits)
  from r obtain j where j: "py_int (r ! 0) = Inr j"
    and d1: "d1 = dict_set j (r ! 1, r ! 2, clean_intent (r ! 3)) d"
    by (rule mapp_row_ok)
  from Cons.prems(2) j have "j \<noteq> k" by auto
  then have "map_of d1 k = map_of d k" unfolding d1 by (simp add: map_of_dict_set)
  moreover have "map_of d' k = map_of d1 k" using Cons.IH[OF rest] Cons.prems(2) by simp
  ultimately show ?case by simp
qed

lemma mapp_rows_last_wins:
  assumes run: "mapp_rows (pre @ r # post) d = Inr d'"
    and k: "py_int (r ! 0) = Inr k"
    and later: "\<forall>r' \<in> set post. py_int (r' ! 0) \<noteq> Inr k"
  shows "map_of d' k = Some (r ! 1, r ! 2, clean_intent (r ! 3))"
proof -
  from run obtain d0 d1 where "mapp_rows pre d = Inr d0" and r: "mapp_row r d0 = Inr d1"
    and post: "mapp_rows post d1 = Inr d'"
    by (auto simp: mapp_rows_append split: sum.splits)
  from r k have "d1 = dict_set k (r ! 1, r ! 2, clean_intent (r ! 3)) d0"
    by (auto elim!: mapp_row_ok)
  then have "map_of d1 k = Some (r ! 1, r ! 2, clean_intent (r ! 3))"
    by (simp add: map_of_dict_set)
  with mapp_rows_untouched[OF post later] show ?thesis by simp
qed

lemma reformat_samples_train:
  "reformat_samples lang ''train'' tbl (mk_fd t1 d1 e1 t2 d2 e2)
     = Inr (mk_fd (t1 @ map (\<lambda>p. fst (format_mapp lang (snd p))) tbl) d1 e1
                  (t2 @ map (\<lambda>p. snd (format_mapp lang (snd p))) tbl) d2 e2)"
proof (induction tbl arbitrary: t1 t2)
  case Nil
  then show ?case by simp
next
  case (Cons p tbl)
  then show ?case by (cases p) (simp add: add_pair_mk_fd)
qed

lemma reformat_samples_dev:
  "reformat_samples lang ''dev'' tbl (mk_fd t1 d1 e1 t2 d2 e2)
     = Inr (mk_fd t1 (d1 @ map (\<lambda>p. fst (format_mapp lang (snd p))) tbl) e1
                  t2 (d2 @ map (\<lambda>p. snd (format_mapp lang (snd p))) tbl) e2)"
proof (induction tbl arbitrary: d1 d2)
  case Nil
  then show ?case by simp
next
  case (Cons p tbl)
  then show ?case by (cases p) (simp add: add_pair_mk_fd)
qed

lemma reformat_samples_test:
  "reformat_samples lang ''test'' tbl (mk_fd t1 d1 e1 t2 d2 e2)
     = Inr (mk_fd t1 d1 (e1 @ map (\<lambda>p. fst (format_mapp lang (snd p))) tbl)
                  t2 d2 (e2 @ map (\<lambda>p. snd (format_mapp lang (snd p))) tbl))"
proof (induction tbl arbitrary: e1 e2)
  case Nil
  then show ?case by simp
next
  case (Cons p tbl)
  then show ?case by (cases p) (simp add: add_pair_mk_fd)
qed

lemma reformat_samples_lines:
  assumes "split \<in> {''train'', ''dev'', ''test''}" and "lockstep fd"
  shows "\<exists>fd'. reformat_samples lang split tbl fd = Inr fd'
     \<and> get_lines fd' ''input'' split
          = get_lines fd ''input'' split @ map (\<lambda>p. fst (format_mapp lang (snd p))) tbl
     \<and> get_lines fd' ''output'' split
          = get_lines fd ''output'' split @ map (\<lambda>p. snd (format_mapp lang (snd p))) tbl"
proof -
  from assms(2) obtain t1 d1 e1 t2 d2 e2 where fd: "fd = mk_fd t1 d1 e1 t2 d2 e2"
    by (rule lockstepE)
  from assms(1) show ?thesis unfolding fd
    by (auto simp: reformat_samples_train reformat_samples_dev reformat_samples_test
        get_lines_mk_fd)
qed

text \<open>
  Claim C10. The rows of a file write into one table keyed by the integer id. The table
  has every id once; an id has the record of the last row that carries it; and the
  reformatter appends one line pair for every entry of the table, so the rows sharing an
  id contribute one pair together.
\<close>

theorem duplicate_ids_last_wins:
  assumes "mapp_rows rows by_id0 = Inr by_id" and "distinct (map fst by_id0)"
  shows "distinct (map fst by_id)
     \<and> set (map fst by_id) = set (map fst by_id0) \<union> {k. \<exists>r \<in> set rows. py_int (r ! 0) = Inr k}
     \<and> (rows = pre @ r # post \<and> py_int (r ! 0) = Inr k
          \<and> (\<forall>r' \<in> set post. py_int (r' ! 0) \<noteq> Inr k) \<longrightarrow>
        map_of by_id k = Some (r ! 1, r ! 2, clean_intent (r ! 3)))
     \<and> (split \<in> {''train'', ''dev'', ''test''} \<and> lockstep fd \<longrightarrow>
        (\<exists>fd'. reformat_samples lang split by_id fd = Inr fd'
           \<and> get_lines fd' ''input'' split
                = get_lines fd ''input'' split @ map (\<lambda>p. fst (format_mapp lang (snd p))) by_id
           \<and> get_lines fd' ''output'' split
                = get_lines fd ''output'' split @ map (\<lambda>p. snd (format_mapp lang (snd p))) by_id))"
proof -
  have a: "distinct (map fst by_id)" using assms by (rule mapp_rows_distinct)
  have b: "set (map fst by_id) = set (map fst by_id0) \<union> {k. \<exists>r \<in> set rows. py_int (r ! 0) = Inr k}"
    using assms(1) by (rule mapp_rows_keys)
  have c: "map_of by_id k = Some (r ! 1, r ! 2, clean_intent (r ! 3))"
    if "rows = pre @ r # post" and "py_int (r ! 0) = Inr k"
      and "\<forall>r' \<in> set post. py_int (r' ! 0) \<noteq> Inr k"
    using mapp_rows_last_wins[of pre r post by_id0 by_id k] assms(1) that by simp
  show ?thesis using a b c reformat_samples_lines[of split fd lang by_id] by blast
qed

theorem duplicate_ids_last_wins_witness:
  "mapp_rows example_rows [] = Inr example_by_id
   \<and> distinct (map fst example_by_id)
   \<and> py_int (example_rows ! 1 ! 0) = Inr 2 \<and> py_int (example_rows ! 2 ! 0) = Inr 2
   \<and> map_of example_by_id 2 = Some (''ab Graz'', ''O B-fromloc'', ''flight'')
   \<and> length example_rows = 4 \<and> length example_by_id = 3
   \<and> (\<exists>fd'. reformat_samples ''de'' ''train'' example_by_id final_data_init = Inr fd'
        \<and> get_lines fd' ''input'' ''train'' = [''nach wien'', ''ab graz'', ''preis'']
        \<and> get_lines fd' ''output'' ''train''
            = [''wien <B-toloc> <intent-flight> <lang-de>'',
               ''graz <B-fromloc> <intent-flight> <lang-de>'', ''<intent-airfare> <lang-de>''])"
proof -
  have run: "mapp_rows example_rows [] = Inr example_by_id" by code_simp
  have d0: "distinct (map fst ([] :: id_table))" by simp
  have rows: "example_rows = take 2 example_rows @ example_rows ! 2 # drop 3 example_rows"
    by code_simp
  have k: "py_int (example_rows ! 1 ! 0) = Inr 2 \<and> py_int (example_rows ! 2 ! 0) = Inr 2"
    by code_simp
  have later: "\<forall>r' \<in> set (drop 3 example_rows). py_int (r' ! 0) \<noteq> Inr 2" by code_simp
  have r: "(example_rows ! 2 ! 1, example_rows ! 2 ! 2, clean_intent (example_rows ! 2 ! 3))
      = (''ab Graz'', ''O B-fromloc'', ''flight'')"
    by code_simp
  have n: "length example_rows = 4 \<and> length example_by_id = 3" by code_simp
  have l: "lockstep final_data_init" by code_simp
  have g: "get_lines final_data_init ''input'' ''train'' = []"
    "get_lines final_data_init ''output'' ''train'' = []"
    by code_simp+
  have f: "map (\<lambda>p. fst (format_mapp ''de'' (snd p))) example_by_id
      = [''nach wien'', ''ab graz'', ''preis'']"
    "map (\<lambda>p. snd (format_mapp ''de'' (snd p))) example_by_id
      = [''wien <B-toloc> <intent-flight> <lang-de>'',
               ''graz <B-fromloc> <intent-flight> <lang-de>'', ''<intent-airfare> <lang-de>'']"
    by code_simp+
  note t = duplicate_ids_last_wins[OF run d0, of "take 2 example_rows" "example_rows ! 2"
      "drop 3 example_rows" 2 "''train''" final_data_init "''de''"]
  have a: "distinct (map fst example_by_id)" using t by blast
  have b: "map_of example_by_id 2 = Some (''ab Graz'', ''O B-fromloc'', ''flight'')"
    using t rows k later r by simp
  have c: "\<exists>fd'. reformat_samples ''de'' ''train'' example_by_id final_data_init = Inr fd'
        \<and> get_lines fd' ''input'' ''train'' = [''nach wien'', ''ab graz'', ''preis'']
        \<and> get_lines fd' ''output'' ''train''
            = [''wien <B-toloc> <intent-flight> <lang-de>'',
               ''graz <B-fromloc> <intent-flight> <lang-de>'', ''<intent-airfare> <lang-de>'']"
    using t l g f by simp
  show ?thesis using run a k b n c by simp
qed

end
